theory Spec2Isabelle
  imports Main "HOL-Library.Word"
begin

section \<open>JavaScript values as the bot sees them\<close>

text \<open>
  The bot (\<^verbatim>\<open>bot/mybot.js\<close>) is a Node.js program. Everything it receives arrives as the
  text of an HTTP body that it hands to \<^verbatim>\<open>JSON.parse\<close>, and it reads the parsed value with
  property accesses, \<^verbatim>\<open>==\<close>, \<^verbatim>\<open>!=\<close>, template literals and \<^verbatim>\<open>if (x)\<close>. None of these
  checks a type, so the model keeps the values untyped, as JavaScript does.

  A JavaScript string is a sequence of 16-bit code units.
\<close>

type_synonym code_unit = "16 word"
type_synonym jsstring = "code_unit list"

definition js :: "string \<Rightarrow> jsstring" where
  \<comment> \<open>a string literal of the source (its characters are all below 256)\<close>
  "js s = map of_char s"

text \<open>
  The program never computes with the numbers of a JSON document: it renders them, tests
  them for truthiness and compares them with zero. Their representation (IEEE doubles) and
  these conversions belong to the language, so the number type is a parameter \<open>'n\<close> and the
  conversions are the fields of \<open>numbers\<close>; every definition below takes them as \<open>N\<close>.
\<close>

record 'n numbers =
  number_of_literal :: "jsstring \<Rightarrow> 'n"    \<comment> \<open>the Number a JSON number literal denotes\<close>
  number_to_string :: "'n \<Rightarrow> jsstring"     \<comment> \<open>\<^verbatim>\<open>String(n)\<close>\<close>
  number_is_finite :: "'n \<Rightarrow> bool"
  number_truthy :: "'n \<Rightarrow> bool"            \<comment> \<open>neither zero nor NaN\<close>
  number_positive :: "'n \<Rightarrow> bool"          \<comment> \<open>\<^verbatim>\<open>n > 0\<close>\<close>
  string_positive :: "jsstring \<Rightarrow> bool"    \<comment> \<open>\<^verbatim>\<open>Number(s) > 0\<close>\<close>

datatype 'n jsval =
    JS_undefined
  | JS_null
  | JS_bool bool
  | JS_number 'n
  | JS_string jsstring
  | JS_array "'n jsval list"
  | JS_object "(jsstring \<times> 'n jsval) list"
    \<comment> \<open>the members in the order of the JSON text; a repeated key keeps its last value\<close>

datatype exn =
    TypeError
  | SyntaxError
  | Error jsstring    \<comment> \<open>\<^verbatim>\<open>new Error(message)\<close>, and the errors of the transport\<close>

definition lookup :: "(jsstring \<times> 'a) list \<Rightarrow> jsstring \<Rightarrow> 'a option" where
  "lookup kvs k = map_of (rev kvs) k"

definition get :: "'n jsval \<Rightarrow> jsstring \<Rightarrow> exn + 'n jsval" where
  \<comment> \<open>\<^verbatim>\<open>v.k\<close> for a property name \<open>k\<close> that no prototype defines, which holds for every name
      the program reads with it: events, action, target, mediaType, repository, tag,
      callback_query, id, message, chat, username, data, command, Id\<close>
  "get v k =
     (case v of
        JS_undefined \<Rightarrow> Inl TypeError
      | JS_null \<Rightarrow> Inl TypeError
      | JS_object kvs \<Rightarrow> Inr (case lookup kvs k of Some x \<Rightarrow> x | None \<Rightarrow> JS_undefined)
      | _ \<Rightarrow> Inr JS_undefined)"

definition truthy :: "'n numbers \<Rightarrow> 'n jsval \<Rightarrow> bool" where
  "truthy N v =
     (case v of
        JS_undefined \<Rightarrow> False
      | JS_null \<Rightarrow> False
      | JS_bool b \<Rightarrow> b
      | JS_number n \<Rightarrow> number_truthy N n
      | JS_string s \<Rightarrow> s \<noteq> []
      | _ \<Rightarrow> True)"

text \<open>
  \<^verbatim>\<open>String(v)\<close>, which a template literal \<^verbatim>\<open>`${v}`\<close> applies. An array is joined with commas,
  \<^verbatim>\<open>null\<close> and \<^verbatim>\<open>undefined\<close> elements rendering as the empty string. An object from a JSON
  text has no callable property of its own, so it renders with \<^verbatim>\<open>Object.prototype.toString\<close>
  unless a member named \<^verbatim>\<open>toString\<close> shadows that method: then no method yields a
  primitive and the conversion throws a TypeError.
\<close>

fun to_string :: "'n numbers \<Rightarrow> 'n jsval \<Rightarrow> exn + jsstring"
  and join :: "'n numbers \<Rightarrow> 'n jsval list \<Rightarrow> exn + jsstring" where
  "to_string N JS_undefined = Inr (js ''undefined'')"
| "to_string N JS_null = Inr (js ''null'')"
| "to_string N (JS_bool b) = Inr (if b then js ''true'' else js ''false'')"
| "to_string N (JS_number n) = Inr (number_to_string N n)"
| "to_string N (JS_string s) = Inr s"
| "to_string N (JS_array xs) = join N xs"
| "to_string N (JS_object kvs) =
     (if lookup kvs (js ''toString'') = None then Inr (js ''[object Object]'') else Inl TypeError)"
| "join N [] = Inr []"
| "join N (x # xs) =
     (case (if x = JS_undefined \<or> x = JS_null then Inr [] else to_string N x) of
        Inl e \<Rightarrow> Inl e
      | Inr s \<Rightarrow>
          if xs = [] then Inr s
          else (case join N xs of Inl e \<Rightarrow> Inl e | Inr t \<Rightarrow> Inr (s @ js '','' @ t)))"

text \<open>
  \<^verbatim>\<open>v == s\<close> for a string \<open>s\<close> that is not the text of a number (\<^verbatim>\<open>Number(s)\<close> is NaN), which
  holds for each string literal the program compares with: a string is compared as it is;
  a number or a boolean is compared with \<^verbatim>\<open>Number(s)\<close> and differs; \<^verbatim>\<open>null\<close> and
  \<^verbatim>\<open>undefined\<close> differ; an array or an object is first converted to a primitive, which for a
  value from a JSON text is its string rendering (or a TypeError).
\<close>

definition loose_equals :: "'n numbers \<Rightarrow> 'n jsval \<Rightarrow> jsstring \<Rightarrow> exn + bool" where
  "loose_equals N v s =
     (case v of
        JS_string t \<Rightarrow> Inr (t = s)
      | JS_array xs \<Rightarrow> (case to_string N v of Inl e \<Rightarrow> Inl e | Inr t \<Rightarrow> Inr (t = s))
      | JS_object kvs \<Rightarrow> (case to_string N v of Inl e \<Rightarrow> Inl e | Inr t \<Rightarrow> Inr (t = s))
      | _ \<Rightarrow> Inr False)"

definition primitive :: "'n jsval \<Rightarrow> bool" where
  "primitive v = (case v of JS_array _ \<Rightarrow> False | JS_object _ \<Rightarrow> False | _ \<Rightarrow> True)"

definition typeof_string :: "'n jsval \<Rightarrow> bool" where
  \<comment> \<open>\<^verbatim>\<open>typeof v == 'string'\<close>\<close>
  "typeof_string v = (case v of JS_string _ \<Rightarrow> True | _ \<Rightarrow> False)"

section \<open>\<^verbatim>\<open>JSON.parse\<close> and \<^verbatim>\<open>JSON.stringify\<close>\<close>

text \<open>
  \<^verbatim>\<open>JSON.parse\<close> is modelled as the pushdown automaton of the JSON grammar, one code unit
  at a time: total by construction, and \<open>None\<close> where \<^verbatim>\<open>JSON.parse\<close> throws a SyntaxError.
  The stack holds the arrays and objects that are still open.
\<close>

datatype 'n frame =
    Array_frame "'n jsval list"    \<comment> \<open>the elements read so far, last first\<close>
  | Object_frame "(jsstring \<times> 'n jsval) list" "jsstring option"
    \<comment> \<open>the members read so far, last first, and the key whose value is being read\<close>

datatype number_state =
  After_minus | After_zero | In_int | After_point | In_frac | After_e | After_exp_sign | In_exp

datatype 'n lexer =
    Before_value bool    \<comment> \<open>a value starts here; \<open>True\<close>: or the array closes, just after \<^verbatim>\<open>[\<close>\<close>
  | Before_key bool      \<comment> \<open>a key starts here; \<open>True\<close>: or the object closes, just after \<^verbatim>\<open>{\<close>\<close>
  | Before_colon
  | After_value "'n jsval"
  | In_string jsstring   \<comment> \<open>the characters read so far, last first\<close>
  | In_escape jsstring
  | In_unicode jsstring "nat list"    \<comment> \<open>the hexadecimal digits of \<^verbatim>\<open>\u\<close> read so far\<close>
  | In_literal jsstring "'n jsval"    \<comment> \<open>the rest of \<^verbatim>\<open>true\<close>, \<^verbatim>\<open>false\<close> or \<^verbatim>\<open>null\<close>\<close>
  | In_number number_state jsstring   \<comment> \<open>the literal read so far, last first\<close>
  | Rejected

definition is_whitespace :: "code_unit \<Rightarrow> bool" where
  "is_whitespace c = (c = 0x20 \<or> c = 0x09 \<or> c = 0x0A \<or> c = 0x0D)"

definition is_digit :: "code_unit \<Rightarrow> bool" where
  "is_digit c = (0x30 \<le> c \<and> c \<le> 0x39)"

definition hex_value :: "code_unit \<Rightarrow> nat option" where
  "hex_value c =
     (if 0x30 \<le> c \<and> c \<le> 0x39 then Some (unat c - 0x30)
      else if 0x41 \<le> c \<and> c \<le> 0x46 then Some (unat c - 0x41 + 10)
      else if 0x61 \<le> c \<and> c \<le> 0x66 then Some (unat c - 0x61 + 10)
      else None)"

definition escaped :: "code_unit \<Rightarrow> code_unit option" where
  \<comment> \<open>the character a backslash escape stands for\<close>
  "escaped c =
     (if c = 0x22 \<or> c = 0x5C \<or> c = 0x2F then Some c
      else if c = 0x62 then Some 0x08
      else if c = 0x66 then Some 0x0C
      else if c = 0x6E then Some 0x0A
      else if c = 0x72 then Some 0x0D
      else if c = 0x74 then Some 0x09
      else None)"

definition number_step :: "number_state \<Rightarrow> code_unit \<Rightarrow> number_state option" where
  "number_step ns c =
     (case ns of
        After_minus \<Rightarrow> if c = 0x30 then Some After_zero else if is_digit c then Some In_int else None
      | After_zero \<Rightarrow>
          if c = 0x2E then Some After_point
          else if c = 0x65 \<or> c = 0x45 then Some After_e else None
      | In_int \<Rightarrow>
          if is_digit c then Some In_int
          else if c = 0x2E then Some After_point
          else if c = 0x65 \<or> c = 0x45 then Some After_e else None
      | After_point \<Rightarrow> if is_digit c then Some In_frac else None
      | In_frac \<Rightarrow>
          if is_digit c then Some In_frac
          else if c = 0x65 \<or> c = 0x45 then Some After_e else None
      | After_e \<Rightarrow>
          if c = 0x2B \<or> c = 0x2D then Some After_exp_sign
          else if is_digit c then Some In_exp else None
      | After_exp_sign \<Rightarrow> if is_digit c then Some In_exp else None
      | In_exp \<Rightarrow> if is_digit c then Some In_exp else None)"

definition number_complete :: "number_state \<Rightarrow> bool" where
  "number_complete ns = (ns = After_zero \<or> ns = In_int \<or> ns = In_frac \<or> ns = In_exp)"

definition begin_value :: "code_unit \<Rightarrow> 'n frame list \<Rightarrow> 'n lexer \<times> 'n frame list" where
  "begin_value c stack =
     (if c = 0x7B then (Before_key True, Object_frame [] None # stack)
      else if c = 0x5B then (Before_value True, Array_frame [] # stack)
      else if c = 0x22 then (In_string [], stack)
      else if c = 0x2D then (In_number After_minus [c], stack)
      else if c = 0x30 then (In_number After_zero [c], stack)
      else if is_digit c then (In_number In_int [c], stack)
      else if c = 0x74 then (In_literal (js ''rue'') (JS_bool True), stack)
      else if c = 0x66 then (In_literal (js ''alse'') (JS_bool False), stack)
      else if c = 0x6E then (In_literal (js ''ull'') JS_null, stack)
      else (Rejected, stack))"

definition after_value ::
  "'n jsval \<Rightarrow> code_unit \<Rightarrow> 'n frame list \<Rightarrow> 'n lexer \<times> 'n frame list" where
  "after_value v c stack =
     (if is_whitespace c then (After_value v, stack)
      else case stack of
        Array_frame vs # rest \<Rightarrow>
          if c = 0x2C then (Before_value False, Array_frame (v # vs) # rest)
          else if c = 0x5D then (After_value (JS_array (rev (v # vs))), rest)
          else (Rejected, stack)
      | Object_frame kvs (Some k) # rest \<Rightarrow>
          if c = 0x2C then (Before_key False, Object_frame ((k, v) # kvs) None # rest)
          else if c = 0x7D then (After_value (JS_object (rev ((k, v) # kvs))), rest)
          else (Rejected, stack)
      | _ \<Rightarrow> (Rejected, stack))"

definition end_string :: "jsstring \<Rightarrow> 'n frame list \<Rightarrow> 'n lexer \<times> 'n frame list" where
  \<comment> \<open>the closing quote: the string is a key where the open object waits for one\<close>
  "end_string s stack =
     (case stack of
        Object_frame kvs None # rest \<Rightarrow> (Before_colon, Object_frame kvs (Some s) # rest)
      | _ \<Rightarrow> (After_value (JS_string s), stack))"

fun parse_step ::
  "'n numbers \<Rightarrow> 'n lexer \<times> 'n frame list \<Rightarrow> code_unit \<Rightarrow> 'n lexer \<times> 'n frame list" where
  "parse_step N (Before_value closes, stack) c =
     (if is_whitespace c then (Before_value closes, stack)
      else if closes \<and> c = 0x5D then
        (case stack of
           Array_frame [] # rest \<Rightarrow> (After_value (JS_array []), rest)
         | _ \<Rightarrow> (Rejected, stack))
      else begin_value c stack)"
| "parse_step N (Before_key closes, stack) c =
     (if is_whitespace c then (Before_key closes, stack)
      else if c = 0x22 then (In_string [], stack)
      else if closes \<and> c = 0x7D then
        (case stack of
           Object_frame [] None # rest \<Rightarrow> (After_value (JS_object []), rest)
         | _ \<Rightarrow> (Rejected, stack))
      else (Rejected, stack))"
| "parse_step N (Before_colon, stack) c =
     (if is_whitespace c then (Before_colon, stack)
      else if c = 0x3A then (Before_value False, stack)
      else (Rejected, stack))"
| "parse_step N (After_value v, stack) c = after_value v c stack"
| "parse_step N (In_string acc, stack) c =
     (if c = 0x22 then end_string (rev acc) stack
      else if c = 0x5C then (In_escape acc, stack)
      else if c < 0x20 then (Rejected, stack)
      else (In_string (c # acc), stack))"
| "parse_step N (In_escape acc, stack) c =
     (if c = 0x75 then (In_unicode acc [], stack)
      else case escaped c of
        Some x \<Rightarrow> (In_string (x # acc), stack)
      | None \<Rightarrow> (Rejected, stack))"
| "parse_step N (In_unicode acc ds, stack) c =
     (case hex_value c of
        None \<Rightarrow> (Rejected, stack)
      | Some d \<Rightarrow>
          if length ds < 3 then (In_unicode acc (ds @ [d]), stack)
          else (In_string (of_nat (foldl (\<lambda>a x. 16 * a + x) 0 (ds @ [d])) # acc), stack))"
| "parse_step N (In_literal expected v, stack) c =
     (case expected of
        [] \<Rightarrow> (Rejected, stack)
      | x # xs \<Rightarrow>
          if c \<noteq> x then (Rejected, stack)
          else if xs = [] then (After_value v, stack)
          else (In_literal xs v, stack))"
| "parse_step N (In_number ns acc, stack) c =
     (case number_step ns c of
        Some ns' \<Rightarrow> (In_number ns' (c # acc), stack)
      | None \<Rightarrow>
          if number_complete ns
          then after_value (JS_number (number_of_literal N (rev acc))) c stack
          else (Rejected, stack))"
| "parse_step N (Rejected, stack) c = (Rejected, stack)"

definition parse_end :: "'n numbers \<Rightarrow> 'n lexer \<times> 'n frame list \<Rightarrow> 'n jsval option" where
  \<comment> \<open>the end of the text: one complete value and nothing open\<close>
  "parse_end N st =
     (case st of
        (After_value v, []) \<Rightarrow> Some v
      | (In_number ns acc, []) \<Rightarrow>
          if number_complete ns then Some (JS_number (number_of_literal N (rev acc))) else None
      | _ \<Rightarrow> None)"

definition JSON_parse :: "'n numbers \<Rightarrow> jsstring \<Rightarrow> 'n jsval option" where
  "JSON_parse N text = parse_end N (foldl (parse_step N) (Before_value False, []) text)"

text \<open>
  \<^verbatim>\<open>JSON.stringify\<close>. A string is quoted: the quote, the backslash and the control characters
  are escaped, and so is a surrogate that is not half of a pair; every other code unit
  stands for itself.
\<close>

definition hex_digit :: "nat \<Rightarrow> code_unit" where
  "hex_digit d = (if d < 10 then of_nat (0x30 + d) else of_nat (0x61 + (d - 10)))"

definition unicode_escape :: "code_unit \<Rightarrow> jsstring" where
  "unicode_escape c =
     [0x5C, 0x75, hex_digit (unat c div 4096), hex_digit (unat c div 256 mod 16),
      hex_digit (unat c div 16 mod 16), hex_digit (unat c mod 16)]"

definition quote_unit :: "code_unit \<Rightarrow> jsstring" where
  \<comment> \<open>a code unit that is not a surrogate; \<open>0x5C\<close> is the backslash\<close>
  "quote_unit c =
     (if c = 0x08 then [0x5C, 0x62]
      else if c = 0x09 then [0x5C, 0x74]
      else if c = 0x0A then [0x5C, 0x6E]
      else if c = 0x0C then [0x5C, 0x66]
      else if c = 0x0D then [0x5C, 0x72]
      else if c = 0x22 then [0x5C, 0x22]
      else if c = 0x5C then [0x5C, 0x5C]
      else if c < 0x20 then unicode_escape c
      else [c])"

definition is_high_surrogate :: "code_unit \<Rightarrow> bool" where
  "is_high_surrogate c = (0xD800 \<le> c \<and> c \<le> 0xDBFF)"

definition is_low_surrogate :: "code_unit \<Rightarrow> bool" where
  "is_low_surrogate c = (0xDC00 \<le> c \<and> c \<le> 0xDFFF)"

fun quote_units :: "jsstring \<Rightarrow> jsstring" where
  "quote_units [] = []"
| "quote_units [c] =
     (if is_high_surrogate c \<or> is_low_surrogate c then unicode_escape c else quote_unit c)"
| "quote_units (c # d # cs) =
     (if is_high_surrogate c \<and> is_low_surrogate d then c # d # quote_units cs
      else if is_high_surrogate c \<or> is_low_surrogate c then unicode_escape c @ quote_units (d # cs)
      else quote_unit c @ quote_units (d # cs))"

definition quote :: "jsstring \<Rightarrow> jsstring" where
  "quote s = js ''\"'' @ quote_units s @ js ''\"''"

text \<open>
  The members of an object are written in the order of its property keys: the array
  indices in ascending order, then the other keys in the order they were first set.
\<close>

definition is_array_index :: "jsstring \<Rightarrow> bool" where
  \<comment> \<open>the canonical decimal text of an integer below \<open>2^32 - 1\<close>\<close>
  "is_array_index k =
     (k \<noteq> [] \<and> list_all is_digit k \<and> (hd k = 0x30 \<longrightarrow> length k = 1) \<and>
      foldl (\<lambda>a c. 10 * a + (unat c - 0x30)) 0 k < 2 ^ 32 - 1)"

definition own_keys :: "jsstring list \<Rightarrow> jsstring list" where
  "own_keys ks =
     (let ds = rev (remdups (rev ks))
      in sort_key (foldl (\<lambda>a c. 10 * a + (unat c - 0x30)) 0) (filter is_array_index ds) @
         filter (\<lambda>k. \<not> is_array_index k) ds)"

definition separated :: "jsstring list \<Rightarrow> jsstring" where
  "separated xs = (case xs of [] \<Rightarrow> [] | x # ys \<Rightarrow> x @ concat (map (\<lambda>y. js '','' @ y) ys))"

fun JSON_stringify :: "'n numbers \<Rightarrow> 'n jsval \<Rightarrow> jsstring option"
  and stringify_elements :: "'n numbers \<Rightarrow> 'n jsval list \<Rightarrow> jsstring list"
  and stringify_members ::
    "'n numbers \<Rightarrow> (jsstring \<times> 'n jsval) list \<Rightarrow> (jsstring \<times> jsstring option) list" where
  "JSON_stringify N JS_undefined = None"
| "JSON_stringify N JS_null = Some (js ''null'')"
| "JSON_stringify N (JS_bool b) = Some (if b then js ''true'' else js ''false'')"
| "JSON_stringify N (JS_number n) =
     Some (if number_is_finite N n then number_to_string N n else js ''null'')"
| "JSON_stringify N (JS_string s) = Some (quote s)"
| "JSON_stringify N (JS_array xs) = Some (js ''['' @ separated (stringify_elements N xs) @ js '']'')"
| "JSON_stringify N (JS_object kvs) =
     (let ms = stringify_members N kvs
      in Some (js ''{'' @
           separated (concat (map (\<lambda>k. case lookup ms k of
                                           Some (Some t) \<Rightarrow> [quote k @ js '':'' @ t]
                                         | _ \<Rightarrow> [])
                                  (own_keys (map fst kvs)))) @
           js ''}''))"
| "stringify_elements N [] = []"
| "stringify_elements N (x # xs) =
     (case JSON_stringify N x of None \<Rightarrow> js ''null'' | Some t \<Rightarrow> t) # stringify_elements N xs"
| "stringify_members N [] = []"
| "stringify_members N ((k, v) # kvs) = (k, JSON_stringify N v) # stringify_members N kvs"

section \<open>The Docker and Telegram clients\<close>

text \<open>
  Each client operation awaits one HTTP exchange and then inspects the status code. The
  exchange itself is outside the program: the environment decides its outcome, which is
  either a response (status code and body) or a failure, that is, any error that makes
  the awaited request reject, whether raised while the request is put together or by the
  transport. An operation is modelled by what it returns or throws for each outcome.
\<close>

datatype http_outcome =
    Failed exn
  | Response nat jsstring    \<comment> \<open>\<^verbatim>\<open>code\<close> and \<^verbatim>\<open>body\<close>\<close>

fun decimal :: "nat \<Rightarrow> jsstring" where
  \<comment> \<open>\<^verbatim>\<open>`${code}`\<close> for a status code\<close>
  "decimal n = (if n < 10 then [of_nat (0x30 + n)] else decimal (n div 10) @ [of_nat (0x30 + n mod 10)])"

definition http_error :: "nat \<Rightarrow> jsstring \<Rightarrow> exn" where
  \<comment> \<open>\<^verbatim>\<open>new Error(`got http code ${code}, expected [200,300), the body:\n${body}`)\<close>\<close>
  "http_error code body =
     Error (js ''got http code '' @ decimal code @ js '', expected [200,300), the body:'' @ [0x0A] @ body)"

definition and_then :: "exn + 'a \<Rightarrow> ('a \<Rightarrow> exn + 'b) \<Rightarrow> exn + 'b" where
  \<comment> \<open>sequencing: an exception skips what follows\<close>
  "and_then x f = (case x of Inl e \<Rightarrow> Inl e | Inr a \<Rightarrow> f a)"

definition greater_than_zero :: "'n numbers \<Rightarrow> 'n jsval \<Rightarrow> exn + bool" where
  \<comment> \<open>\<^verbatim>\<open>v > 0\<close>\<close>
  "greater_than_zero N v =
     (case v of
        JS_undefined \<Rightarrow> Inr False
      | JS_null \<Rightarrow> Inr False
      | JS_bool b \<Rightarrow> Inr b
      | JS_number n \<Rightarrow> Inr (number_positive N n)
      | JS_string s \<Rightarrow> Inr (string_positive N s)
      | _ \<Rightarrow> and_then (to_string N v) (\<lambda>s. Inr (string_positive N s)))"

definition length_positive :: "'n numbers \<Rightarrow> 'n jsval \<Rightarrow> exn + bool" where
  \<comment> \<open>\<^verbatim>\<open>v.length > 0\<close>\<close>
  "length_positive N v =
     (case v of
        JS_undefined \<Rightarrow> Inl TypeError
      | JS_null \<Rightarrow> Inl TypeError
      | JS_string s \<Rightarrow> Inr (s \<noteq> [])
      | JS_array xs \<Rightarrow> Inr (xs \<noteq> [])
      | JS_object kvs \<Rightarrow>
          (case lookup kvs (js ''length'') of
             None \<Rightarrow> Inr False
           | Some x \<Rightarrow> greater_than_zero N x)
      | _ \<Rightarrow> Inr False)"

definition list_container :: "'n numbers \<Rightarrow> http_outcome \<Rightarrow> exn + 'n jsval" where
  "list_container N r =
     (case r of
        Failed e \<Rightarrow> Inl e
      | Response code body \<Rightarrow>
          if \<not> (200 \<le> code \<and> code < 300) then Inl (http_error code body)
          else (case JSON_parse N body of None \<Rightarrow> Inl SyntaxError | Some v \<Rightarrow> Inr v))"

definition container_exists :: "'n numbers \<Rightarrow> http_outcome \<Rightarrow> exn + bool" where
  "container_exists N r =
     (case r of
        Failed e \<Rightarrow> Inl e
      | Response code body \<Rightarrow>
          if \<not> (200 \<le> code \<and> code < 300) then Inl (http_error code body)
          else (case JSON_parse N body of None \<Rightarrow> Inl SyntaxError | Some v \<Rightarrow> length_positive N v))"

definition create_container :: "'n numbers \<Rightarrow> http_outcome \<Rightarrow> exn + 'n jsval" where
  "create_container N r =
     (case r of
        Failed e \<Rightarrow> Inl e
      | Response code body \<Rightarrow>
          if \<not> (200 \<le> code \<and> code < 300) then Inl (http_error code body)
          else (case JSON_parse N body of None \<Rightarrow> Inl SyntaxError | Some v \<Rightarrow> get v (js ''Id'')))"

definition start_container :: "http_outcome \<Rightarrow> exn + bool" where
  "start_container r =
     (case r of
        Failed e \<Rightarrow> Inl e
      | Response code body \<Rightarrow>
          if code = 304 then Inr False    \<comment> \<open>already started\<close>
          else if \<not> (200 \<le> code \<and> code < 300) then Inl (http_error code body)
          else Inr True)"

definition stop_container :: "http_outcome \<Rightarrow> exn + bool" where
  "stop_container r =
     (case r of
        Failed e \<Rightarrow> Inl e
      | Response code body \<Rightarrow>
          if code = 304 then Inr False    \<comment> \<open>already stopped\<close>
          else if \<not> (200 \<le> code \<and> code < 300) then Inl (http_error code body)
          else Inr True)"

definition kill_container :: "http_outcome \<Rightarrow> exn + bool" where
  "kill_container r =
     (case r of
        Failed e \<Rightarrow> Inl e
      | Response code body \<Rightarrow>
          if code = 409 then Inr False    \<comment> \<open>container not running\<close>
          else if \<not> (200 \<le> code \<and> code < 300) then Inl (http_error code body)
          else Inr True)"

definition remove_container :: "http_outcome \<Rightarrow> exn + bool" where
  "remove_container r =
     (case r of
        Failed e \<Rightarrow> Inl e
      | Response code body \<Rightarrow>
          if code = 404 then Inr False    \<comment> \<open>container already removed\<close>
          else if \<not> (200 \<le> code \<and> code < 300) then Inl (http_error code body)
          else Inr True)"

definition pull_image :: "http_outcome \<Rightarrow> exn + unit" where
  "pull_image r =
     (case r of
        Failed e \<Rightarrow> Inl e
      | Response code body \<Rightarrow>
          if \<not> (200 \<le> code \<and> code < 300) then Inl (http_error code body) else Inr ())"

definition send_telegram_msg :: "http_outcome \<Rightarrow> exn + unit" where
  "send_telegram_msg r =
     (case r of
        Failed e \<Rightarrow> Inl e
      | Response code body \<Rightarrow>
          if \<not> (200 \<le> code \<and> code < 300) then Inl (http_error code body) else Inr ())"

definition answer_telegram_callback :: "http_outcome \<Rightarrow> exn + unit" where
  "answer_telegram_callback r =
     (case r of
        Failed e \<Rightarrow> Inl e
      | Response code body \<Rightarrow>
          if \<not> (200 \<le> code \<and> code < 300) then Inl (http_error code body) else Inr ())"

text \<open>
  What the program does to the outside is recorded as a trace of effects: the calls of
  client operations with their arguments, the lines it logs, and the callbacks it
  schedules with \<^verbatim>\<open>setImmediate\<close>.
\<close>

datatype 'n call =
    Send_telegram_msg jsstring "jsstring option" "jsstring option"
    \<comment> \<open>\<^verbatim>\<open>msg\<close>, \<^verbatim>\<open>command\<close>, \<^verbatim>\<open>data\<close>; \<open>None\<close> where the argument is left out\<close>
  | Answer_telegram_callback "'n jsval"
  | Pull_image jsstring "jsstring option" "jsstring option"
  | Remove_container jsstring
  | Create_container jsstring jsstring jsstring
  | Start_container jsstring

datatype 'n effect =
    Call "'n call"
  | Console_log jsstring
  | Console_error jsstring exn    \<comment> \<open>the prefix of the line, and the error it reports\<close>
  | Set_immediate "'n jsval"      \<comment> \<open>the deploy scheduled for this decoded payload\<close>

datatype reply =
    Reply nat jsstring    \<comment> \<open>status code and body\<close>
  | Socket_destroyed

section \<open>The registry webhook\<close>

fun get_path :: "'n jsval \<Rightarrow> jsstring list \<Rightarrow> exn + 'n jsval" where
  \<comment> \<open>\<^verbatim>\<open>v.a.b\<close>\<close>
  "get_path v [] = Inr v"
| "get_path v (k # ks) = and_then (get v k) (\<lambda>x. get_path x ks)"

definition valid_event :: "'n numbers \<Rightarrow> 'n jsval \<Rightarrow> bool" where
  \<comment> \<open>the callback of \<^verbatim>\<open>filter\<close>: \<^verbatim>\<open>&&\<close> stops at the first false operand, \<^verbatim>\<open>catch\<close> returns false\<close>
  "valid_event N ev =
     (case
        and_then (get_path ev [js ''action'']) (\<lambda>a.
        and_then (loose_equals N a (js ''push'')) (\<lambda>is_push.
        if \<not> is_push then Inr False else
        and_then (get_path ev [js ''target'', js ''mediaType'']) (\<lambda>m.
        and_then (loose_equals N m (js ''application/vnd.docker.distribution.manifest.v2+json''))
          (\<lambda>is_manifest.
        if \<not> is_manifest then Inr False else
        and_then (get_path ev [js ''target'', js ''repository'']) (\<lambda>r.
        and_then (loose_equals N r (js ''myapp'')) (\<lambda>is_myapp.
        if \<not> is_myapp then Inr False else
        and_then (get_path ev [js ''target'', js ''repository'']) (\<lambda>r'.
        Inr (typeof_string r'))))))))
      of Inl _ \<Rightarrow> False | Inr b \<Rightarrow> b)"

text \<open>
  The validity of a push event as the specification words it: the action is push, the
  media type is the manifest's, the repository is the application's name.
\<close>

definition spec_valid :: "'n jsval \<Rightarrow> bool" where
  "spec_valid ev =
     (get_path ev [js ''action''] = Inr (JS_string (js ''push'')) \<and>
      get_path ev [js ''target'', js ''mediaType''] =
        Inr (JS_string (js ''application/vnd.docker.distribution.manifest.v2+json'')) \<and>
      get_path ev [js ''target'', js ''repository''] = Inr (JS_string (js ''myapp'')))"

fun notify :: "'n numbers \<Rightarrow> 'n jsval list \<Rightarrow> 'n effect list \<times> (exn + reply)" where
  \<comment> \<open>the loop over the filtered events, then \<^verbatim>\<open>res.end('OK')\<close>. The message is sent without
      being awaited: its outcome does not reach the handler.\<close>
  "notify N [] = ([], Inr (Reply 200 (js ''OK'')))"
| "notify N (ev # evs) =
     (case and_then (get_path ev [js ''target'', js ''tag'']) (\<lambda>tag.
           and_then (to_string N tag) (\<lambda>t. Inr (tag, t))) of
        Inl e \<Rightarrow> ([], Inl e)
      | Inr (tag, t) \<Rightarrow>
          (let (effects, result) = notify N evs
           in ([Console_log (js ''got registry event: pushed: '' @ t),
                Call (Send_telegram_msg (js ''New image pushed: '' @ t) (Some (js ''Deploy''))
                  (JSON_stringify N
                     (JS_object [(js ''command'', JS_string (js ''deploy'')), (js ''tag'', tag)])))]
               @ effects, result)))"

definition on_registry_event :: "'n numbers \<Rightarrow> jsstring \<Rightarrow> 'n effect list \<times> (exn + reply)" where
  "on_registry_event N body =
     (case JSON_parse N body of
        None \<Rightarrow> ([], Inl SyntaxError)
      | Some v \<Rightarrow>
          (case get v (js ''events'') of
             Inl e \<Rightarrow> ([], Inl e)
           | Inr (JS_array evs) \<Rightarrow> notify N (filter (valid_event N) evs)
           | Inr _ \<Rightarrow> ([], Inl TypeError)))"    \<comment> \<open>only an array has \<^verbatim>\<open>filter\<close>\<close>

section \<open>The Telegram webhook\<close>

definition do_deploy :: "'n numbers \<Rightarrow> 'n jsval \<Rightarrow> exn + 'n jsval option" where
  \<comment> \<open>the synchronous part, lines 288 to 294: the decoded payload the deploy is scheduled
      for, or \<open>None\<close> when the command is not deploy. \<^verbatim>\<open>JSON.parse\<close> first converts its
      argument to a string, inside the \<^verbatim>\<open>try\<close>.\<close>
  "do_deploy N payload =
     (let decoded =
        (case to_string N payload of
           Inl _ \<Rightarrow> JS_object []
         | Inr s \<Rightarrow> (case JSON_parse N s of None \<Rightarrow> JS_object [] | Some v \<Rightarrow> v))
      in and_then (get decoded (js ''command'')) (\<lambda>command.
         and_then (loose_equals N command (js ''deploy'')) (\<lambda>is_deploy.
         Inr (if is_deploy then Some decoded else None))))"

definition callback_query :: "'n numbers \<Rightarrow> jsstring \<Rightarrow> 'n jsval" where
  \<comment> \<open>\<^verbatim>\<open>data\<close> after lines 269 to 272: it stays \<^verbatim>\<open>null\<close> when the \<^verbatim>\<open>try\<close> block throws\<close>
  "callback_query N body =
     (case JSON_parse N body of
        None \<Rightarrow> JS_null
      | Some v \<Rightarrow> (case get v (js ''callback_query'') of Inl _ \<Rightarrow> JS_null | Inr d \<Rightarrow> d))"

definition on_telegram_event ::
  "'n numbers \<Rightarrow> jsstring \<Rightarrow> http_outcome \<Rightarrow> 'n effect list \<times> (exn + reply)" where
  \<comment> \<open>\<open>ack\<close> is the outcome of the exchange that \<^verbatim>\<open>answer_telegram_callback\<close> awaits\<close>
  "on_telegram_event N body ack =
     (let data = callback_query N body in
      if truthy N data then
        (case get data (js ''id'') of
           Inl e \<Rightarrow> ([], Inl e)
         | Inr callback_id \<Rightarrow>
             (case answer_telegram_callback ack of
                Inl e \<Rightarrow> ([Call (Answer_telegram_callback callback_id)], Inl e)
              | Inr _ \<Rightarrow>
                  (case and_then (get_path data [js ''message'', js ''chat'', js ''username''])
                          (\<lambda>username. loose_equals N username (js ''kurnia_d_win'')) of
                     Inl e \<Rightarrow> ([Call (Answer_telegram_callback callback_id)], Inl e)
                   | Inr is_approver \<Rightarrow>
                       if \<not> is_approver then
                         ([Call (Answer_telegram_callback callback_id),
                           Console_log (js ''got telegram event: but with wrong sender'')],
                          Inr (Reply 200 (js ''OK'')))
                       else
                         (case and_then (get data (js ''data'')) (do_deploy N) of
                            Inl e \<Rightarrow> ([Call (Answer_telegram_callback callback_id)], Inl e)
                          | Inr None \<Rightarrow>
                              ([Call (Answer_telegram_callback callback_id)], Inr (Reply 200 (js ''OK'')))
                          | Inr (Some decoded) \<Rightarrow>
                              ([Call (Answer_telegram_callback callback_id), Set_immediate decoded],
                               Inr (Reply 200 (js ''OK'')))))))
      else ([], Inr (Reply 200 (js ''OK''))))"

definition handle_request ::
  "'n numbers \<Rightarrow> jsstring \<Rightarrow> jsstring \<Rightarrow> http_outcome \<Rightarrow> 'n effect list \<times> reply" where
  \<comment> \<open>the \<^verbatim>\<open>request\<close> listener, lines 224 to 240, for the request's \<^verbatim>\<open>url\<close> and body\<close>
  "handle_request N url body ack =
     (case (if url = js ''/a0362dc339959f93451937ae76b5e7e6/registry'' then
              on_registry_event N body
            else if url = js ''/a0362dc339959f93451937ae76b5e7e6/telegram'' then
              on_telegram_event N body ack
            else ([], Inr (Reply 404 (js ''404 Not Found'')))) of
        (effects, Inr reply) \<Rightarrow> (effects, reply)
      | (effects, Inl e) \<Rightarrow>
          (effects @ [Console_error (js ''Handling error: '') e], Socket_destroyed))"

section \<open>The deploy sequence\<close>

text \<open>
  The callback that \<^verbatim>\<open>do_deploy\<close> schedules runs an \<^verbatim>\<open>async\<close> function. Node runs one
  callback at a time, so the function runs without interruption from one \<^verbatim>\<open>await\<close> to the
  next, and other callbacks run while it waits. The state of the bot is the guard
  \<^verbatim>\<open>on_progres\<close>, the deploys that are suspended at an \<^verbatim>\<open>await\<close>, and the trace so far.
  A step of the bot is either a scheduled callback that starts to run, or the completion
  of the exchange that one suspended deploy awaits.
\<close>

record config =
  REGISTRY_USER :: "jsstring option"    \<comment> \<open>\<^verbatim>\<open>process.env\<close>: a string, or undefined\<close>
  REGISTRY_PASS :: "jsstring option"

datatype stage =
  \<comment> \<open>the \<^verbatim>\<open>await\<close> of lines 304 to 309 at which a deploy is suspended\<close>
  Deploying_msg | Pull | Remove | Create | Start | Deployed_msg

record 'n deploy =
  tag :: "'n jsval"
  name :: jsstring
  image_ref :: jsstring    \<comment> \<open>the variable \<^verbatim>\<open>image\<close>\<close>
  awaiting :: stage

record 'n bot =
  on_progres :: bool
  running :: "(nat \<times> 'n deploy) list"    \<comment> \<open>the suspended deploys, each under its own number\<close>
  next_id :: nat
  trace :: "'n effect list"

datatype 'n event =
    Immediate "'n jsval"          \<comment> \<open>the callback scheduled for this decoded payload runs\<close>
  | Completed nat http_outcome    \<comment> \<open>the exchange that this deploy awaits ends\<close>

definition idle :: "'n bot" where
  "idle = \<lparr>on_progres = False, running = [], next_id = 0, trace = []\<rparr>"

definition immediate :: "'n numbers \<Rightarrow> 'n jsval \<Rightarrow> 'n bot \<Rightarrow> 'n bot" where
  \<comment> \<open>lines 295 to 304 and the \<^verbatim>\<open>catch\<close> of lines 312 to 315. The three template literals
      render the same \<^verbatim>\<open>tag\<close>; the first that throws is the one of line 298.\<close>
  "immediate N payload s =
     (case and_then (get payload (js ''tag'')) (\<lambda>v.
           and_then (to_string N v) (\<lambda>t. Inr (v, t))) of
        Inl e \<Rightarrow>
          s\<lparr>on_progres := False, trace := trace s @ [Console_error (js ''do_deploy error: '') e]\<rparr>
      | Inr (v, t) \<Rightarrow>
          if on_progres s then
            s\<lparr>trace := trace s @
                [Console_log (js ''got telegram event: deploy: '' @ t),
                 Console_log (js ''warning: already on_progress, ignoring'')]\<rparr>
          else
            s\<lparr>on_progres := True,
              running := running s @
                [(next_id s,
                  \<lparr>tag = v, name = js ''myapp'',
                   image_ref = js ''registry.demo-docker.kurniadwin.to/myapp:'' @ t,
                   awaiting = Deploying_msg\<rparr>)],
              next_id := Suc (next_id s),
              trace := trace s @
                [Console_log (js ''got telegram event: deploy: '' @ t),
                 Call (Send_telegram_msg (js ''Deploying: '' @ t) None None)]\<rparr>)"

definition resume ::
  "'n numbers \<Rightarrow> config \<Rightarrow> 'n deploy \<Rightarrow> http_outcome \<Rightarrow> exn + ('n call \<times> stage) option" where
  \<comment> \<open>from the end of the awaited exchange to the next \<^verbatim>\<open>await\<close>: the operation that was
      awaited returns or throws, and on return the next operation is called; \<open>None\<close> after
      the last one\<close>
  "resume N cfg d r =
     (case awaiting d of
        Deploying_msg \<Rightarrow>
          and_then (send_telegram_msg r) (\<lambda>_.
          Inr (Some (Pull_image (image_ref d) (REGISTRY_USER cfg) (REGISTRY_PASS cfg), Pull)))
      | Pull \<Rightarrow>
          and_then (pull_image r) (\<lambda>_. Inr (Some (Remove_container (name d), Remove)))
      | Remove \<Rightarrow>
          and_then (remove_container r) (\<lambda>_.
          Inr (Some (Create_container (name d) (image_ref d) (js ''net0''), Create)))
      | Create \<Rightarrow>
          and_then (create_container N r) (\<lambda>_. Inr (Some (Start_container (name d), Start)))
      | Start \<Rightarrow>
          and_then (start_container r) (\<lambda>_.
          and_then (to_string N (tag d)) (\<lambda>t.
          Inr (Some (Send_telegram_msg (js ''Deployed: '' @ t) None None, Deployed_msg))))
      | Deployed_msg \<Rightarrow> and_then (send_telegram_msg r) (\<lambda>_. Inr None))"

definition completed :: "'n numbers \<Rightarrow> config \<Rightarrow> nat \<Rightarrow> http_outcome \<Rightarrow> 'n bot \<Rightarrow> 'n bot" where
  \<comment> \<open>lines 304 to 310 and the \<^verbatim>\<open>catch\<close> of lines 312 to 315\<close>
  "completed N cfg i r s =
     (case map_of (running s) i of
        None \<Rightarrow> s
      | Some d \<Rightarrow>
          (case resume N cfg d r of
             Inl e \<Rightarrow>
               s\<lparr>on_progres := False,
                 running := filter (\<lambda>(j, _). j \<noteq> i) (running s),
                 trace := trace s @ [Console_error (js ''do_deploy error: '') e]\<rparr>
           | Inr (Some (c, next)) \<Rightarrow>
               s\<lparr>running := map (\<lambda>(j, x). (j, if j = i then x\<lparr>awaiting := next\<rparr> else x)) (running s),
                 trace := trace s @ [Call c]\<rparr>
           | Inr None \<Rightarrow>
               s\<lparr>on_progres := False, running := filter (\<lambda>(j, _). j \<noteq> i) (running s)\<rparr>))"

fun step :: "'n numbers \<Rightarrow> config \<Rightarrow> 'n bot \<Rightarrow> 'n event \<Rightarrow> 'n bot" where
  "step N cfg s (Immediate payload) = immediate N payload s"
| "step N cfg s (Completed i r) = completed N cfg i r s"

definition run :: "'n numbers \<Rightarrow> config \<Rightarrow> 'n bot \<Rightarrow> 'n event list \<Rightarrow> 'n bot" where
  "run N cfg s evs = foldl (step N cfg) s evs"

text \<open>
  The redeploy sequence as the specification words it, for the rendering \<open>t\<close> of the tag:
  the six calls in order. A deploy advances by one call for each awaited operation that
  returns, and \<open>progress\<close> counts the outcomes that return before the first that throws.
\<close>

definition spec_sequence :: "config \<Rightarrow> jsstring \<Rightarrow> 'n call list" where
  "spec_sequence cfg t =
     [Send_telegram_msg (js ''Deploying: '' @ t) None None,
      Pull_image (js ''registry.demo-docker.kurniadwin.to/myapp:'' @ t)
        (REGISTRY_USER cfg) (REGISTRY_PASS cfg),
      Remove_container (js ''myapp''),
      Create_container (js ''myapp'') (js ''registry.demo-docker.kurniadwin.to/myapp:'' @ t)
        (js ''net0''),
      Start_container (js ''myapp''),
      Send_telegram_msg (js ''Deployed: '' @ t) None None]"

definition stages :: "stage list" where
  "stages = [Deploying_msg, Pull, Remove, Create, Start, Deployed_msg]"

fun stage_index :: "stage \<Rightarrow> nat" where
  "stage_index Deploying_msg = 0"
| "stage_index Pull = 1"
| "stage_index Remove = 2"
| "stage_index Create = 3"
| "stage_index Start = 4"
| "stage_index Deployed_msg = 5"

definition returned :: "exn + 'a \<Rightarrow> bool" where
  "returned x = (case x of Inl _ \<Rightarrow> False | Inr _ \<Rightarrow> True)"

text \<open>An event whose request, if it is one, has a tag with a string rendering.\<close>

definition renders :: "'n numbers \<Rightarrow> 'n event \<Rightarrow> bool" where
  "renders N ev =
     (case ev of
        Immediate payload \<Rightarrow> returned (and_then (get payload (js ''tag'')) (to_string N))
      | Completed i r \<Rightarrow> True)"

definition returns :: "'n numbers \<Rightarrow> stage \<Rightarrow> http_outcome \<Rightarrow> bool" where
  "returns N st r =
     (case st of
        Deploying_msg \<Rightarrow> returned (send_telegram_msg r)
      | Pull \<Rightarrow> returned (pull_image r)
      | Remove \<Rightarrow> returned (remove_container r)
      | Create \<Rightarrow> returned (create_container N r)
      | Start \<Rightarrow> returned (start_container r)
      | Deployed_msg \<Rightarrow> returned (send_telegram_msg r))"

fun progress :: "'n numbers \<Rightarrow> stage list \<Rightarrow> http_outcome list \<Rightarrow> nat" where
  "progress N (st # sts) (r # rs) = (if returns N st r then Suc (progress N sts rs) else 0)"
| "progress N _ _ = 0"

fun calls :: "'n effect list \<Rightarrow> 'n call list" where
  "calls [] = []"
| "calls (Call c # es) = c # calls es"
| "calls (_ # es) = calls es"

section \<open>Example inputs\<close>

definition callback_update :: "jsstring \<Rightarrow> jsstring \<Rightarrow> jsstring" where
  \<comment> \<open>the body of an update with a callback query: the sender's username as JSON text, and
      the callback data, which is a string and arrives as a JSON string\<close>
  "callback_update username data =
     js ''{\"callback_query\":{\"id\":\"1\",\"data\":'' @ quote data @
     js '',\"message\":{\"chat\":{\"username\":'' @ username @ js ''}}}}''"

definition example_numbers :: "jsstring numbers" where
  \<comment> \<open>number conversions for the examples below, none of which contains a number\<close>
  "example_numbers =
     \<lparr>number_of_literal = (\<lambda>s. s), number_to_string = (\<lambda>s. s), number_is_finite = (\<lambda>_. True),
      number_truthy = (\<lambda>_. True), number_positive = (\<lambda>_. True), string_positive = (\<lambda>_. True)\<rparr>"

section \<open>Evaluation rules\<close>

lemma js_simps: "js [] = []" "js (c # cs) = of_char c # js cs"
  by (simp_all add: js_def)

lemmas parse_simps = JSON_parse_def parse_end_def begin_value_def after_value_def end_string_def
  is_whitespace_def is_digit_def hex_value_def escaped_def number_step_def number_complete_def
  js_simps

lemmas quote_simps = quote_def quote_unit_def is_high_surrogate_def is_low_surrogate_def

lemma run_Cons: "run N cfg s (ev # evs) = run N cfg (step N cfg s ev) evs"
  by (simp add: run_def)

lemma and_then_Inr_iff: "and_then x f = Inr b \<longleftrightarrow> (\<exists>a. x = Inr a \<and> f a = Inr b)"
  by (cases x) (simp_all add: and_then_def)

lemma get_truthy: "truthy N v \<Longrightarrow> \<exists>x. get v k = Inr x"
  by (cases v) (simp_all add: truthy_def get_def)

lemma loose_equals_primitive:
  "primitive v \<Longrightarrow> loose_equals N v s = Inr (v = JS_string s)"
  by (cases v) (auto simp add: primitive_def loose_equals_def)

section \<open>Status codes of the Docker client\<close>

text \<open>The message of the error determines the status code and the body.\<close>

declare decimal.simps [simp del]

lemma digit_unit:
  "d < 10 \<Longrightarrow> is_digit (of_nat (0x30 + d)) \<and> unat (of_nat (0x30 + d) :: code_unit) - 0x30 = d"
proof -
  assume "d < 10"
  then have "d = 0 \<or> d = 1 \<or> d = 2 \<or> d = 3 \<or> d = 4 \<or> d = 5 \<or> d = 6 \<or> d = 7 \<or> d = 8 \<or> d = 9"
    by arith
  then show ?thesis
    by (elim disjE) (simp_all add: is_digit_def)
qed

lemma decimal_digits: "list_all is_digit (decimal n)"
proof (induction n rule: decimal.induct)
  case (1 n)
  show ?case
  proof (cases "n < 10")
    case True
    then show ?thesis
      by (subst decimal.simps) (simp add: digit_unit del: of_nat_add decimal.simps)
  next
    case False
    then show ?thesis
      using 1 by (subst decimal.simps) (simp add: digit_unit del: of_nat_add decimal.simps)
  qed
qed

lemma decimal_value: "foldl (\<lambda>a c. 10 * a + (unat c - 0x30)) 0 (decimal n) = n"
proof (induction n rule: decimal.induct)
  case (1 n)
  show ?case
  proof (cases "n < 10")
    case True
    then show ?thesis
      by (subst decimal.simps) (simp add: digit_unit del: of_nat_add decimal.simps)
  next
    case False
    then show ?thesis
      using 1 by (subst decimal.simps) (simp add: digit_unit del: of_nat_add decimal.simps)
  qed
qed

lemma decimal_inject:
  assumes "decimal n = decimal m"
  shows "n = m"
proof -
  have "foldl (\<lambda>a c. 10 * a + (unat c - 0x30)) 0 (decimal n) =
      foldl (\<lambda>a c. 10 * a + (unat c - 0x30)) 0 (decimal m)"
    by (simp only: assms)
  then show ?thesis
    by (simp only: decimal_value)
qed

lemma split_at_separator:
  assumes "list_all P xs" and "list_all P ys" and "\<not> P s" and "xs @ s # r = ys @ s # r'"
  shows "xs = ys \<and> r = r'"
  using assms
proof (induction xs arbitrary: ys)
  case Nil
  then show ?case by (cases ys) auto
next
  case (Cons x xs)
  then show ?case by (cases ys) auto
qed

lemma http_error_inject:
  "http_error code body = http_error code' body' \<longleftrightarrow> code = code' \<and> body = body'"
proof
  assume "http_error code body = http_error code' body'"
  then have "decimal code @ 0x2C # (js '' expected [200,300), the body:'' @ [0x0A] @ body) =
      decimal code' @ 0x2C # (js '' expected [200,300), the body:'' @ [0x0A] @ body')"
    by (simp add: http_error_def js_simps del: decimal.simps)
  from split_at_separator [OF decimal_digits decimal_digits _ this]
  show "code = code' \<and> body = body'"
    by (auto simp add: is_digit_def simp del: decimal.simps dest: decimal_inject)
next
  assume "code = code' \<and> body = body'"
  then show "http_error code body = http_error code' body'"
    by simp
qed

text \<open>
  C8. \<^verbatim>\<open>start_container\<close> and \<^verbatim>\<open>stop_container\<close> return false exactly on status 304,
  \<^verbatim>\<open>kill_container\<close> exactly on 409 and \<^verbatim>\<open>remove_container\<close> exactly on 404. On every other
  status outside [200,300) each operation of the Docker client throws the error whose
  message holds the status code and the body of the response, and both can be read
  back from it.
\<close>

theorem status_handling:
  "(start_container (Response code body) = Inr False \<longleftrightarrow> code = 304) \<and>
   (stop_container (Response code body) = Inr False \<longleftrightarrow> code = 304) \<and>
   (kill_container (Response code body) = Inr False \<longleftrightarrow> code = 409) \<and>
   (remove_container (Response code body) = Inr False \<longleftrightarrow> code = 404) \<and>
   (\<not> (200 \<le> code \<and> code < 300) \<longrightarrow>
      (code \<noteq> 304 \<longrightarrow> start_container (Response code body) = Inl (http_error code body)) \<and>
      (code \<noteq> 304 \<longrightarrow> stop_container (Response code body) = Inl (http_error code body)) \<and>
      (code \<noteq> 409 \<longrightarrow> kill_container (Response code body) = Inl (http_error code body)) \<and>
      (code \<noteq> 404 \<longrightarrow> remove_container (Response code body) = Inl (http_error code body)) \<and>
      list_container N (Response code body) = Inl (http_error code body) \<and>
      container_exists N (Response code body) = Inl (http_error code body) \<and>
      create_container N (Response code body) = Inl (http_error code body) \<and>
      pull_image (Response code body) = Inl (http_error code body)) \<and>
   (http_error code body = http_error code' body' \<longrightarrow> code = code' \<and> body = body')"
  by (simp add: start_container_def stop_container_def kill_container_def remove_container_def
      list_container_def container_exists_def create_container_def pull_image_def
      http_error_inject)

theorem status_handling_witness:
  "start_container (Response 304 (js ''x'')) = Inr False \<and>
   remove_container (Response 404 []) = Inr False \<and>
   kill_container (Response 409 []) = Inr False \<and>
   start_container (Response 500 (js ''boom'')) = Inl (http_error 500 (js ''boom'')) \<and>
   create_container example_numbers (Response 500 (js ''boom'')) =
     Inl (http_error 500 (js ''boom''))"
  using status_handling [of 304 "js ''x''" example_numbers 0 "[]"]
    status_handling [of 404 "[]" example_numbers 0 "[]"]
    status_handling [of 409 "[]" example_numbers 0 "[]"]
    status_handling [of 500 "js ''boom''" example_numbers 0 "[]"]
  by simp

section \<open>The event filter\<close>

text \<open>
  C5 says that the filter keeps exactly the events whose action is push, whose media type
  is the manifest's and whose repository is the application's name. The code compares
  the action and the media type with \<^verbatim>\<open>==\<close>, which converts an array to a string before it
  compares, and checks the type of the repository only (line 248). An event whose action
  is the array \<^verbatim>\<open>["push"]\<close> is not a push event in the specification's sense, yet it passes
  the filter and its notification is sent.
\<close>

theorem filter_keeps_array_action:
  "valid_event N (JS_object [(js ''action'', JS_array [JS_string (js ''push'')]),
      (js ''target'', JS_object
         [(js ''mediaType'', JS_string (js ''application/vnd.docker.distribution.manifest.v2+json'')),
          (js ''repository'', JS_string (js ''myapp'')),
          (js ''tag'', JS_string (js ''v2''))])]) \<and>
   \<not> spec_valid (JS_object [(js ''action'', JS_array [JS_string (js ''push'')]),
      (js ''target'', JS_object
         [(js ''mediaType'', JS_string (js ''application/vnd.docker.distribution.manifest.v2+json'')),
          (js ''repository'', JS_string (js ''myapp'')),
          (js ''tag'', JS_string (js ''v2''))])] :: 'n jsval) \<and>
   on_registry_event N (js ''{\"events\":[{\"action\":[\"push\"],\"target\":{\"mediaType\":\"application/vnd.docker.distribution.manifest.v2+json\",\"repository\":\"myapp\",\"tag\":\"v2\"}}]}'') =
     ([Console_log (js ''got registry event: pushed: v2''),
       Call (Send_telegram_msg (js ''New image pushed: v2'') (Some (js ''Deploy''))
         (Some (js ''{\"command\":\"deploy\",\"tag\":\"v2\"}'')))],
      Inr (Reply 200 (js ''OK'')))"
  by (simp add: valid_event_def spec_valid_def and_then_def get_def lookup_def loose_equals_def
      typeof_string_def on_registry_event_def parse_simps separated_def own_keys_def
      is_array_index_def quote_simps)

text \<open>
  Apart from that the filter is as C5 says: it keeps the events in their order, every
  event that is valid in the specification's sense passes, and an event that passes
  is valid in that sense unless its action or media type is an array or an object.
\<close>

lemma spec_valid_passes: "spec_valid ev \<Longrightarrow> valid_event N ev"
  by (simp add: spec_valid_def valid_event_def and_then_def loose_equals_def typeof_string_def
      del: get_path.simps)

lemma valid_event_primitive:
  assumes "valid_event N ev"
    and "\<forall>a. get_path ev [js ''action''] = Inr a \<longrightarrow> primitive a"
    and "\<forall>m. get_path ev [js ''target'', js ''mediaType''] = Inr m \<longrightarrow> primitive m"
  shows "spec_valid ev"
proof -
  obtain a where a: "get_path ev [js ''action''] = Inr a" "loose_equals N a (js ''push'') = Inr True"
    using assms(1)
    by (cases "get_path ev [js ''action'']")
      (auto simp add: valid_event_def and_then_def simp del: get_path.simps split: sum.splits if_splits)
  obtain m where m: "get_path ev [js ''target'', js ''mediaType''] = Inr m"
    "loose_equals N m (js ''application/vnd.docker.distribution.manifest.v2+json'') = Inr True"
    using assms(1) a
    by (cases "get_path ev [js ''target'', js ''mediaType'']")
      (auto simp add: valid_event_def and_then_def simp del: get_path.simps split: sum.splits if_splits)
  obtain r where r: "get_path ev [js ''target'', js ''repository''] = Inr r"
    "loose_equals N r (js ''myapp'') = Inr True" "typeof_string r"
    using assms(1) a m
    by (cases "get_path ev [js ''target'', js ''repository'']")
      (auto simp add: valid_event_def and_then_def simp del: get_path.simps split: sum.splits if_splits)
  have "a = JS_string (js ''push'')"
    using a assms(2) by (simp add: loose_equals_primitive)
  moreover have "m = JS_string (js ''application/vnd.docker.distribution.manifest.v2+json'')"
    using m assms(3) by (simp add: loose_equals_primitive)
  moreover have "r = JS_string (js ''myapp'')"
    using r by (cases r) (simp_all add: typeof_string_def loose_equals_def)
  ultimately show ?thesis
    using a m r by (simp add: spec_valid_def del: get_path.simps)
qed

section \<open>The approval gate\<close>

text \<open>
  C6. When the body of an update holds a callback query (\<^verbatim>\<open>data\<close> is truthy), the handler
  calls \<^verbatim>\<open>answer_telegram_callback\<close> with the callback's id exactly once, and that call is
  the first effect: the sender is compared only afterwards, and not at all when the
  acknowledgment throws. Without a callback query the handler has no effect at all.
\<close>

theorem acknowledge_first:
  "(truthy N (callback_query N body) \<longrightarrow>
      (\<exists>i rest. get (callback_query N body) (js ''id'') = Inr i \<and>
         fst (on_telegram_event N body ack) = Call (Answer_telegram_callback i) # rest \<and>
         (\<forall>j. Call (Answer_telegram_callback j) \<notin> set rest) \<and>
         (\<forall>e. answer_telegram_callback ack = Inl e \<longrightarrow>
            on_telegram_event N body ack = ([Call (Answer_telegram_callback i)], Inl e)))) \<and>
   (\<not> truthy N (callback_query N body) \<longrightarrow> fst (on_telegram_event N body ack) = [])"
proof (cases "truthy N (callback_query N body)")
  case False
  then show ?thesis by (simp add: on_telegram_event_def)
next
  case True
  then obtain i where i: "get (callback_query N body) (js ''id'') = Inr i"
    using get_truthy by blast
  show ?thesis
    using True i
    by (auto simp add: on_telegram_event_def Let_def split: sum.splits option.splits)
qed

lemma someone_callback: "callback_query N (callback_update (js ''\"someone\"'') (js ''{\"command\":\"deploy\",\"tag\":\"v2\"}'')) =
   JS_object [(js ''id'', JS_string (js ''1'')),
              (js ''data'', JS_string (js ''{\"command\":\"deploy\",\"tag\":\"v2\"}'')),
              (js ''message'', JS_object [(js ''chat'', JS_object [(js ''username'', JS_string (js ''someone''))])])]"
  by (simp add: callback_query_def callback_update_def parse_simps quote_simps get_def lookup_def)

theorem acknowledge_first_witness:
  "truthy example_numbers
     (callback_query example_numbers
        (callback_update (js ''\"someone\"'') (js ''{\"command\":\"deploy\",\"tag\":\"v2\"}''))) \<and>
   hd (fst (on_telegram_event example_numbers
        (callback_update (js ''\"someone\"'') (js ''{\"command\":\"deploy\",\"tag\":\"v2\"}''))
        (Response 200 []))) = Call (Answer_telegram_callback (JS_string (js ''1'')))"
proof -
  let ?b = "callback_update (js ''\"someone\"'') (js ''{\"command\":\"deploy\",\"tag\":\"v2\"}'')"
  have t: "truthy example_numbers (callback_query example_numbers ?b)"
    unfolding someone_callback by (simp add: truthy_def)
  have g: "get (callback_query example_numbers ?b) (js ''id'') = Inr (JS_string (js ''1''))"
    unfolding someone_callback by (simp add: get_def lookup_def js_simps)
  from acknowledge_first [of example_numbers ?b "Response 200 []"] t g
  show ?thesis by auto
qed

text \<open>
  C7 says that a callback whose sender is not the approver's string stops after the
  acknowledgment. The code compares the sender with \<^verbatim>\<open>!=\<close>, which converts an array to a
  string before it compares. An update whose username is the array \<^verbatim>\<open>["kurnia_d_win"]\<close> is not the approver's
  string, yet the handler schedules the deploy, and the scheduled callback starts the
  sequence and calls the Docker client.
\<close>

theorem wrong_sender_deploys:
  "on_telegram_event N
     (callback_update (js ''[\"kurnia_d_win\"]'') (js ''{\"command\":\"deploy\",\"tag\":\"v2\"}''))
     (Response 200 []) =
     ([Call (Answer_telegram_callback (JS_string (js ''1''))),
       Set_immediate (JS_object [(js ''command'', JS_string (js ''deploy'')),
                                 (js ''tag'', JS_string (js ''v2''))])],
      Inr (Reply 200 (js ''OK''))) \<and>
   trace (run N cfg idle
     [Immediate (JS_object [(js ''command'', JS_string (js ''deploy'')),
                            (js ''tag'', JS_string (js ''v2''))]),
      Completed 0 (Response 200 [])]) =
     [Console_log (js ''got telegram event: deploy: v2''),
      Call (Send_telegram_msg (js ''Deploying: v2'') None None),
      Call (Pull_image (js ''registry.demo-docker.kurniadwin.to/myapp:v2'')
              (REGISTRY_USER cfg) (REGISTRY_PASS cfg))]"
  by (simp add: on_telegram_event_def callback_query_def callback_update_def parse_simps quote_simps
      get_def lookup_def truthy_def answer_telegram_callback_def and_then_def loose_equals_def
      do_deploy_def run_def immediate_def completed_def resume_def send_telegram_msg_def idle_def)

text \<open>
  A sender whose username is a string other than the approver's, or is missing, or is
  any other value that is not an array or an object, is stopped as C7 says.
\<close>

lemma other_sender_stops:
  assumes "truthy N (callback_query N body)"
    and "get_path (callback_query N body) [js ''message'', js ''chat'', js ''username''] = Inr u"
    and "primitive u" and "u \<noteq> JS_string (js ''kurnia_d_win'')"
  shows "\<exists>i. on_telegram_event N body (Response 200 b) =
     ([Call (Answer_telegram_callback i),
       Console_log (js ''got telegram event: but with wrong sender'')],
      Inr (Reply 200 (js ''OK'')))"
proof -
  obtain i where i: "get (callback_query N body) (js ''id'') = Inr i"
    using assms(1) get_truthy by blast
  have "loose_equals N u (js ''kurnia_d_win'') = Inr False"
    using assms(3,4) by (simp add: loose_equals_primitive)
  then show ?thesis
    using assms(1,2) i
    by (simp add: on_telegram_event_def answer_telegram_callback_def and_then_def
        del: get_path.simps)
qed

section \<open>The replies of the two webhooks\<close>

lemma urls_differ:
  "js ''/a0362dc339959f93451937ae76b5e7e6/telegram'' \<noteq> js ''/a0362dc339959f93451937ae76b5e7e6/registry''"
  by (simp add: js_simps)

lemma notify_Cons:
  "snd (notify N (ev # evs)) =
     (case and_then (get_path ev [js ''target'', js ''tag'']) (to_string N) of
        Inl e \<Rightarrow> Inl e
      | Inr t \<Rightarrow> snd (notify N evs))"
  by (cases "get_path ev [js ''target'', js ''tag'']")
    (simp_all del: get_path.simps add: and_then_def split: sum.splits prod.splits)

lemma notify_result:
  "snd (notify N evs) = Inr (Reply 200 (js ''OK'')) \<or> (\<exists>e. snd (notify N evs) = Inl e)"
proof (induction evs)
  case Nil
  then show ?case by simp
next
  case (Cons ev evs)
  then show ?case
    unfolding notify_Cons by (simp split: sum.splits)
qed

lemma notify_ok_iff:
  "snd (notify N evs) = Inr (Reply 200 (js ''OK'')) \<longleftrightarrow>
     (\<forall>ev \<in> set evs. \<exists>t. and_then (get_path ev [js ''target'', js ''tag'']) (to_string N) = Inr t)"
proof (induction evs)
  case Nil
  then show ?case by simp
next
  case (Cons ev evs)
  then show ?case
    unfolding notify_Cons
    by (cases "and_then (get_path ev [js ''target'', js ''tag'']) (to_string N)")
      (simp_all del: get_path.simps)
qed

lemma registry_result:
  "snd (on_registry_event N body) = Inr (Reply 200 (js ''OK'')) \<or>
   (\<exists>e. snd (on_registry_event N body) = Inl e)"
  using notify_result [of N]
  by (simp add: on_registry_event_def split: option.splits sum.splits jsval.splits)

lemma telegram_result:
  "snd (on_telegram_event N body ack) = Inr (Reply 200 (js ''OK'')) \<or>
   (\<exists>e. snd (on_telegram_event N body ack) = Inl e)"
  by (simp add: on_telegram_event_def Let_def split: option.splits sum.splits)

text \<open>
  C9, as amended. The Telegram handler replies 200 OK exactly when the body holds no
  callback query (malformed JSON included), or the acknowledgment returns, the chain
  \<^verbatim>\<open>data.message.chat.username\<close> can be read and compared, and, for the approver,
  \<^verbatim>\<open>do_deploy\<close> does not throw. The registry handler replies 200 OK exactly when the body
  parses, its \<^verbatim>\<open>events\<close> is an array, and the tag of every event that passes the filter has
  a string rendering. In every other case the error reaches the \<^verbatim>\<open>catch\<close> of the listener,
  which destroys the socket.
\<close>

theorem reply_ok_iff:
  "(snd (handle_request N (js ''/a0362dc339959f93451937ae76b5e7e6/telegram'') body ack) =
      Reply 200 (js ''OK'') \<longleftrightarrow>
      (\<not> truthy N (callback_query N body) \<or>
       answer_telegram_callback ack = Inr () \<and>
       (\<exists>u b. get_path (callback_query N body) [js ''message'', js ''chat'', js ''username''] = Inr u \<and>
          loose_equals N u (js ''kurnia_d_win'') = Inr b \<and>
          (b \<longrightarrow> (\<exists>r. and_then (get (callback_query N body) (js ''data'')) (do_deploy N) = Inr r))))) \<and>
   (snd (handle_request N (js ''/a0362dc339959f93451937ae76b5e7e6/registry'') body ack) =
      Reply 200 (js ''OK'') \<longleftrightarrow>
      (\<exists>v evs. JSON_parse N body = Some v \<and> get v (js ''events'') = Inr (JS_array evs) \<and>
         (\<forall>ev \<in> set evs. valid_event N ev \<longrightarrow>
            (\<exists>t. and_then (get_path ev [js ''target'', js ''tag'']) (to_string N) = Inr t)))) \<and>
   (url = js ''/a0362dc339959f93451937ae76b5e7e6/telegram'' \<or>
    url = js ''/a0362dc339959f93451937ae76b5e7e6/registry'' \<longrightarrow>
      snd (handle_request N url body ack) = Reply 200 (js ''OK'') \<or>
      snd (handle_request N url body ack) = Socket_destroyed)"
proof (intro conjI)
  show "snd (handle_request N (js ''/a0362dc339959f93451937ae76b5e7e6/telegram'') body ack) =
      Reply 200 (js ''OK'') \<longleftrightarrow>
      (\<not> truthy N (callback_query N body) \<or>
       answer_telegram_callback ack = Inr () \<and>
       (\<exists>u b. get_path (callback_query N body) [js ''message'', js ''chat'', js ''username''] = Inr u \<and>
          loose_equals N u (js ''kurnia_d_win'') = Inr b \<and>
          (b \<longrightarrow> (\<exists>r. and_then (get (callback_query N body) (js ''data'')) (do_deploy N) = Inr r))))"
  proof (cases "truthy N (callback_query N body)")
    case False
    then show ?thesis
      by (simp add: handle_request_def on_telegram_event_def urls_differ)
  next
    case True
    then obtain i where i: "get (callback_query N body) (js ''id'') = Inr i"
      using get_truthy by blast
    let ?check = "and_then (get_path (callback_query N body) [js ''message'', js ''chat'', js ''username''])
        (\<lambda>username. loose_equals N username (js ''kurnia_d_win''))"
    let ?deploy = "and_then (get (callback_query N body) (js ''data'')) (do_deploy N)"
    have rhs: "(\<exists>u b. get_path (callback_query N body) [js ''message'', js ''chat'', js ''username''] = Inr u \<and>
          loose_equals N u (js ''kurnia_d_win'') = Inr b \<and> (b \<longrightarrow> (\<exists>r. ?deploy = Inr r))) \<longleftrightarrow>
        (\<exists>b. ?check = Inr b \<and> (b \<longrightarrow> (\<exists>r. ?deploy = Inr r)))"
      by (auto simp add: and_then_Inr_iff)
    have lhs: "snd (handle_request N (js ''/a0362dc339959f93451937ae76b5e7e6/telegram'') body ack) =
        Reply 200 (js ''OK'') \<longleftrightarrow>
        answer_telegram_callback ack = Inr () \<and> (\<exists>b. ?check = Inr b \<and> (b \<longrightarrow> (\<exists>r. ?deploy = Inr r)))"
      using True i
      by (cases "answer_telegram_callback ack"; cases ?check; cases ?deploy)
        (auto simp add: handle_request_def on_telegram_event_def urls_differ Let_def
          split: option.splits)
    show ?thesis
      using True lhs rhs by simp
  qed
next
  show "snd (handle_request N (js ''/a0362dc339959f93451937ae76b5e7e6/registry'') body ack) =
      Reply 200 (js ''OK'') \<longleftrightarrow>
      (\<exists>v evs. JSON_parse N body = Some v \<and> get v (js ''events'') = Inr (JS_array evs) \<and>
         (\<forall>ev \<in> set evs. valid_event N ev \<longrightarrow>
            (\<exists>t. and_then (get_path ev [js ''target'', js ''tag'']) (to_string N) = Inr t)))"
  proof (cases "JSON_parse N body")
    case None
    then show ?thesis
      by (simp add: handle_request_def on_registry_event_def)
  next
    case (Some v)
    show ?thesis
    proof (cases "get v (js ''events'')")
      case (Inl e)
      then show ?thesis
        using Some by (simp add: handle_request_def on_registry_event_def)
    next
      case (Inr x)
      show ?thesis
      proof (cases "\<exists>evs. x = JS_array evs")
        case False
        then show ?thesis
          using Some Inr
          by (cases x) (simp_all add: handle_request_def on_registry_event_def)
      next
        case True
        then obtain evs where x: "x = JS_array evs" by blast
        have "snd (handle_request N (js ''/a0362dc339959f93451937ae76b5e7e6/registry'') body ack) =
            Reply 200 (js ''OK'') \<longleftrightarrow>
            snd (notify N (filter (valid_event N) evs)) = Inr (Reply 200 (js ''OK''))"
          using Some Inr x
          by (cases "notify N (filter (valid_event N) evs)")
            (auto simp add: handle_request_def on_registry_event_def split: sum.splits)
        then show ?thesis
          using Some Inr x by (auto simp del: get_path.simps simp add: notify_ok_iff)
      qed
    qed
  qed
next
  show "url = js ''/a0362dc339959f93451937ae76b5e7e6/telegram'' \<or>
    url = js ''/a0362dc339959f93451937ae76b5e7e6/registry'' \<longrightarrow>
      snd (handle_request N url body ack) = Reply 200 (js ''OK'') \<or>
      snd (handle_request N url body ack) = Socket_destroyed"
    using registry_result [of N body] telegram_result [of N body ack]
    by (cases "on_registry_event N body"; cases "on_telegram_event N body ack")
      (auto simp add: handle_request_def)
qed

theorem reply_ok_iff_witness:
  "\<not> truthy example_numbers (callback_query example_numbers (js ''{\"update_id\":'')) \<and>
   snd (handle_request example_numbers (js ''/a0362dc339959f93451937ae76b5e7e6/telegram'')
     (js ''{\"update_id\":'') (Failed TypeError)) = Reply 200 (js ''OK'') \<and>
   snd (handle_request example_numbers (js ''/a0362dc339959f93451937ae76b5e7e6/registry'')
     (js ''{\"events\":[null]}'') (Failed TypeError)) = Reply 200 (js ''OK'')"
proof -
  have t: "\<not> truthy example_numbers (callback_query example_numbers (js ''{\"update_id\":''))"
    by (simp add: callback_query_def parse_simps truthy_def)
  have p: "JSON_parse example_numbers (js ''{\"events\":[null]}'') =
      Some (JS_object [(js ''events'', JS_array [JS_null])])"
    by (simp add: parse_simps)
  have g: "get (JS_object [(js ''events'', JS_array [JS_null])]) (js ''events'') =
      Inr (JS_array [JS_null])"
    by (simp add: get_def lookup_def)
  have v: "\<not> valid_event example_numbers JS_null"
    by (simp add: valid_event_def get_def and_then_def)
  note r = reply_ok_iff [where N = example_numbers and ack = "Failed TypeError" and url = "[]"]
  from r [where body = "js ''{\"update_id\":''"] t
  have a: "snd (handle_request example_numbers (js ''/a0362dc339959f93451937ae76b5e7e6/telegram'')
     (js ''{\"update_id\":'') (Failed TypeError)) = Reply 200 (js ''OK'')"
    by blast
  have "\<exists>v evs. JSON_parse example_numbers (js ''{\"events\":[null]}'') = Some v \<and>
      get v (js ''events'') = Inr (JS_array evs) \<and>
      (\<forall>ev \<in> set evs. valid_event example_numbers ev \<longrightarrow>
         (\<exists>t. and_then (get_path ev [js ''target'', js ''tag'']) (to_string example_numbers) = Inr t))"
    using p g v by auto
  with r [where body = "js ''{\"events\":[null]}''"]
  have b: "snd (handle_request example_numbers (js ''/a0362dc339959f93451937ae76b5e7e6/registry'')
     (js ''{\"events\":[null]}'') (Failed TypeError)) = Reply 200 (js ''OK'')"
    by blast
  from t a b show ?thesis by simp
qed

text \<open>
  C9 as stated fails: a callback query without \<^verbatim>\<open>message\<close>, a registry body that is not
  JSON and a registry body without \<^verbatim>\<open>events\<close> each end with the socket destroyed.
\<close>

theorem always_ok_counterexample:
  "snd (handle_request example_numbers (js ''/a0362dc339959f93451937ae76b5e7e6/telegram'')
     (js ''{\"callback_query\":{\"id\":\"1\"}}'') (Response 200 [])) = Socket_destroyed \<and>
   snd (handle_request example_numbers (js ''/a0362dc339959f93451937ae76b5e7e6/registry'')
     (js ''{\"events\":'') (Response 200 [])) = Socket_destroyed \<and>
   snd (handle_request example_numbers (js ''/a0362dc339959f93451937ae76b5e7e6/registry'')
     (js ''{}'') (Response 200 [])) = Socket_destroyed \<and>
   Socket_destroyed \<noteq> Reply 200 (js ''OK'')"
  by (simp add: handle_request_def on_telegram_event_def on_registry_event_def callback_query_def
      parse_simps get_def lookup_def truthy_def answer_telegram_callback_def and_then_def)

section \<open>The single-flight guard\<close>

lemmas deploy_simps = run_def immediate_def completed_def resume_def idle_def and_then_def
  get_def lookup_def send_telegram_msg_def pull_image_def remove_container_def
  create_container_def start_container_def

text \<open>
  C1 says that a request that arrives while the guard is set is dropped and leaves the
  guard set until the deploy in flight ends. In the code the template literal of line 298 runs before the guard is tested, and
  the \<^verbatim>\<open>catch\<close> of lines 312 to 315 clears the guard whoever set it. A request whose tag has
  no string rendering therefore clears the guard of the deploy in flight, and the next
  request starts a second sequence beside the first.
\<close>

theorem guard_cleared_by_discarded_request:
  "on_progres (run N cfg idle
     [Immediate (JS_object [(js ''command'', JS_string (js ''deploy'')),
                            (js ''tag'', JS_string (js ''v1''))])]) \<and>
   \<not> on_progres (run N cfg idle
     [Immediate (JS_object [(js ''command'', JS_string (js ''deploy'')),
                            (js ''tag'', JS_string (js ''v1''))]),
      Immediate (JS_object [(js ''command'', JS_string (js ''deploy'')),
                            (js ''tag'', JS_object [(js ''toString'', JS_null)])])]) \<and>
   map (\<lambda>(i, d). (i, tag d, awaiting d)) (running (run N cfg idle
     [Immediate (JS_object [(js ''command'', JS_string (js ''deploy'')),
                            (js ''tag'', JS_string (js ''v1''))]),
      Immediate (JS_object [(js ''command'', JS_string (js ''deploy'')),
                            (js ''tag'', JS_object [(js ''toString'', JS_null)])]),
      Immediate (JS_object [(js ''command'', JS_string (js ''deploy'')),
                            (js ''tag'', JS_string (js ''v3''))])])) =
     [(0, JS_string (js ''v1''), Deploying_msg), (1, JS_string (js ''v3''), Deploying_msg)]"
  by (simp add: deploy_simps js_simps)

text \<open>
  A request whose tag has a string rendering is dropped as C1 says: it logs the warning,
  calls no client, starts nothing and leaves the guard set.
\<close>

lemma discarded_when_tag_renders:
  assumes "on_progres s" and "get payload (js ''tag'') = Inr v" and "to_string N v = Inr t"
  shows "immediate N payload s =
     s\<lparr>trace := trace s @
        [Console_log (js ''got telegram event: deploy: '' @ t),
         Console_log (js ''warning: already on_progress, ignoring'')]\<rparr>"
  using assms by (simp add: immediate_def and_then_def)

text \<open>
  As long as every request has such a tag, the guard is set exactly while a deploy is
  running, and at most one deploy is running.
\<close>

lemma single_flight_step:
  assumes "on_progres s \<longleftrightarrow> running s \<noteq> []" and "length (running s) \<le> 1" and "renders N ev"
  shows "(on_progres (step N cfg s ev) \<longleftrightarrow> running (step N cfg s ev) \<noteq> []) \<and>
     length (running (step N cfg s ev)) \<le> 1"
proof (cases ev)
  case (Immediate payload)
  then show ?thesis
    using assms
    by (auto simp add: immediate_def renders_def returned_def and_then_def split: sum.splits)
next
  case (Completed i r)
  show ?thesis
  proof (cases "map_of (running s) i")
    case None
    then show ?thesis
      using assms Completed by (simp add: completed_def)
  next
    case (Some d)
    then have "running s = [(i, d)]"
      using assms(2) by (cases "running s") (auto split: if_splits)
    then show ?thesis
      using assms Completed Some
      by (auto simp add: completed_def split: sum.splits option.splits)
  qed
qed

lemma single_flight:
  assumes "\<forall>ev \<in> set evs. renders N ev"
  shows "(on_progres (run N cfg idle evs) \<longleftrightarrow> running (run N cfg idle evs) \<noteq> []) \<and>
     length (running (run N cfg idle evs)) \<le> 1"
proof -
  have "\<And>s. (on_progres s \<longleftrightarrow> running s \<noteq> []) \<Longrightarrow> length (running s) \<le> 1 \<Longrightarrow>
      (on_progres (run N cfg s evs) \<longleftrightarrow> running (run N cfg s evs) \<noteq> []) \<and>
      length (running (run N cfg s evs)) \<le> 1"
    using assms
  proof (induction evs)
    case Nil
    then show ?case by (simp add: run_def)
  next
    case (Cons ev evs)
    from Cons.prems have r: "renders N ev" and rs: "\<forall>ev \<in> set evs. renders N ev"
      by simp_all
    from single_flight_step [OF Cons.prems(1,2) r, of cfg] Cons.IH [OF _ _ rs] show ?case
      unfolding run_Cons by blast
  qed
  then show ?thesis
    by (simp add: idle_def)
qed

lemma map_of_filter_out: "map_of (filter (\<lambda>(j, _). j \<noteq> i) xs) i = None"
  by (induction xs) auto

lemma not_in_filter_out: "i \<notin> fst ` set (filter (\<lambda>(j, _). j \<noteq> i) xs)"
  by (induction xs) auto

lemma map_of_map_awaiting:
  "map_of (map (\<lambda>(j, x). (j, if j = i then f x else x)) xs) k =
     (if k = i then map_option f (map_of xs k) else map_of xs k)"
  by (induction xs) auto

lemma returned_cases:
  "returned x \<Longrightarrow> \<exists>a. x = Inr a" "\<not> returned x \<Longrightarrow> \<exists>e. x = Inl e"
  by (cases x; simp add: returned_def)+

lemma resume_throws:
  assumes "\<not> returns N (awaiting d) r"
  shows "\<exists>e. resume N cfg d r = Inl e"
  using assms
  by (cases "awaiting d") (auto simp add: returns_def resume_def and_then_def dest: returned_cases)

lemma resume_finishes:
  assumes "awaiting d = Deployed_msg" and "returns N Deployed_msg r"
  shows "resume N cfg d r = Inr None"
  using assms by (auto simp add: returns_def resume_def and_then_def dest: returned_cases)

text \<open>
  C2. A sequence ends where the body of \<^verbatim>\<open>do_deploy\<close>, resumed with the outcome of the
  operation it awaits, throws or runs to its end: an awaited operation that throws makes
  it throw, whichever of the six it is, and the return of the sixth makes it run to its
  end. After that step the guard is clear and the deploy is gone, and a request that runs
  next, with a tag that has a string rendering, sets the guard and starts a new sequence
  with its first call.
\<close>

theorem guard_released:
  assumes "map_of (running s) i = Some d"
  shows "(\<not> returns N (awaiting d) r \<longrightarrow> (\<exists>e. resume N cfg d r = Inl e)) \<and>
    (awaiting d = Deployed_msg \<and> returns N Deployed_msg r \<longrightarrow> resume N cfg d r = Inr None) \<and>
    ((\<exists>e. resume N cfg d r = Inl e) \<or> resume N cfg d r = Inr None \<longrightarrow>
      \<not> on_progres (step N cfg s (Completed i r)) \<and>
      i \<notin> fst ` set (running (step N cfg s (Completed i r))) \<and>
      (\<forall>payload v t. get payload (js ''tag'') = Inr v \<and> to_string N v = Inr t \<longrightarrow>
         step N cfg (step N cfg s (Completed i r)) (Immediate payload) =
           (step N cfg s (Completed i r))
             \<lparr>on_progres := True,
              running := running (step N cfg s (Completed i r)) @
                [(next_id (step N cfg s (Completed i r)),
                  \<lparr>tag = v, name = js ''myapp'',
                   image_ref = js ''registry.demo-docker.kurniadwin.to/myapp:'' @ t,
                   awaiting = Deploying_msg\<rparr>)],
              next_id := Suc (next_id (step N cfg s (Completed i r))),
              trace := trace (step N cfg s (Completed i r)) @
                [Console_log (js ''got telegram event: deploy: '' @ t),
                 Call (Send_telegram_msg (js ''Deploying: '' @ t) None None)]\<rparr>))"
proof (intro conjI impI)
  show "\<exists>e. resume N cfg d r = Inl e" if "\<not> returns N (awaiting d) r"
    using that by (rule resume_throws)
  show "resume N cfg d r = Inr None" if "awaiting d = Deployed_msg \<and> returns N Deployed_msg r"
    using that by (simp add: resume_finishes)
next
  assume ends: "(\<exists>e. resume N cfg d r = Inl e) \<or> resume N cfg d r = Inr None"
  let ?s' = "step N cfg s (Completed i r)"
  from ends assms show released: "\<not> on_progres ?s'"
    by (auto simp add: completed_def)
  from ends assms show "i \<notin> fst ` set (running ?s')"
    by (auto simp add: completed_def not_in_filter_out)
  from released show "\<forall>payload v t. get payload (js ''tag'') = Inr v \<and> to_string N v = Inr t \<longrightarrow>
         step N cfg ?s' (Immediate payload) =
           ?s'\<lparr>on_progres := True,
              running := running ?s' @
                [(next_id ?s',
                  \<lparr>tag = v, name = js ''myapp'',
                   image_ref = js ''registry.demo-docker.kurniadwin.to/myapp:'' @ t,
                   awaiting = Deploying_msg\<rparr>)],
              next_id := Suc (next_id ?s'),
              trace := trace ?s' @
                [Console_log (js ''got telegram event: deploy: '' @ t),
                 Call (Send_telegram_msg (js ''Deploying: '' @ t) None None)]\<rparr>"
    by (simp add: immediate_def and_then_def)
qed

theorem guard_released_witness:
  "map_of (running (run example_numbers \<lparr>REGISTRY_USER = None, REGISTRY_PASS = None\<rparr> idle
      [Immediate (JS_object [(js ''command'', JS_string (js ''deploy'')),
                             (js ''tag'', JS_string (js ''v2''))]),
       Completed 0 (Response 200 []),
       Completed 0 (Response 200 []),
       Completed 0 (Response 404 []),
       Completed 0 (Response 201 (js ''{\"Id\":\"abc\"}'')),
       Completed 0 (Response 304 [])])) 0 =
     Some \<lparr>tag = JS_string (js ''v2''), name = js ''myapp'',
        image_ref = js ''registry.demo-docker.kurniadwin.to/myapp:v2'',
        awaiting = Deployed_msg\<rparr> \<and>
   on_progres (run example_numbers \<lparr>REGISTRY_USER = None, REGISTRY_PASS = None\<rparr> idle
      [Immediate (JS_object [(js ''command'', JS_string (js ''deploy'')),
                             (js ''tag'', JS_string (js ''v2''))]),
       Completed 0 (Response 200 []),
       Completed 0 (Response 200 []),
       Completed 0 (Response 404 []),
       Completed 0 (Response 201 (js ''{\"Id\":\"abc\"}'')),
       Completed 0 (Response 304 [])]) \<and>
   returns example_numbers Deployed_msg (Response 200 []) \<and>
   \<not> on_progres (run example_numbers \<lparr>REGISTRY_USER = None, REGISTRY_PASS = None\<rparr> idle
      [Immediate (JS_object [(js ''command'', JS_string (js ''deploy'')),
                             (js ''tag'', JS_string (js ''v2''))]),
       Completed 0 (Response 200 []),
       Completed 0 (Response 200 []),
       Completed 0 (Response 404 []),
       Completed 0 (Response 201 (js ''{\"Id\":\"abc\"}'')),
       Completed 0 (Response 304 []),
       Completed 0 (Response 200 [])]) \<and>
   0 \<notin> fst ` set (running (run example_numbers \<lparr>REGISTRY_USER = None, REGISTRY_PASS = None\<rparr> idle
      [Immediate (JS_object [(js ''command'', JS_string (js ''deploy'')),
                             (js ''tag'', JS_string (js ''v2''))]),
       Completed 0 (Response 200 []),
       Completed 0 (Response 200 []),
       Completed 0 (Response 404 []),
       Completed 0 (Response 201 (js ''{\"Id\":\"abc\"}'')),
       Completed 0 (Response 304 []),
       Completed 0 (Response 200 [])])) \<and>
   map (\<lambda>(i, d). (i, tag d, awaiting d)) (running (run example_numbers \<lparr>REGISTRY_USER = None, REGISTRY_PASS = None\<rparr> idle
      [Immediate (JS_object [(js ''command'', JS_string (js ''deploy'')),
                             (js ''tag'', JS_string (js ''v2''))]),
       Completed 0 (Response 200 []),
       Completed 0 (Response 200 []),
       Completed 0 (Response 404 []),
       Completed 0 (Response 201 (js ''{\"Id\":\"abc\"}'')),
       Completed 0 (Response 304 []),
       Completed 0 (Response 200 []),
       Immediate (JS_object [(js ''command'', JS_string (js ''deploy'')),
                             (js ''tag'', JS_string (js ''v3''))])])) =
     [(1, JS_string (js ''v3''), Deploying_msg)] \<and>
   on_progres (run example_numbers \<lparr>REGISTRY_USER = None, REGISTRY_PASS = None\<rparr> idle
      [Immediate (JS_object [(js ''command'', JS_string (js ''deploy'')),
                             (js ''tag'', JS_string (js ''v2''))]),
       Completed 0 (Response 200 []),
       Completed 0 (Response 200 []),
       Completed 0 (Response 404 []),
       Completed 0 (Response 201 (js ''{\"Id\":\"abc\"}'')),
       Completed 0 (Response 304 []),
       Completed 0 (Response 200 []),
       Immediate (JS_object [(js ''command'', JS_string (js ''deploy'')),
                             (js ''tag'', JS_string (js ''v3''))])]) \<and>
   \<not> returns example_numbers Pull (Response 500 (js ''no such image'')) \<and>
   \<not> on_progres (run example_numbers \<lparr>REGISTRY_USER = None, REGISTRY_PASS = None\<rparr> idle
      [Immediate (JS_object [(js ''command'', JS_string (js ''deploy'')),
                             (js ''tag'', JS_string (js ''v2''))]),
       Completed 0 (Response 200 []),
       Completed 0 (Response 500 (js ''no such image''))])"
proof -
  let ?cfg = "\<lparr>REGISTRY_USER = None, REGISTRY_PASS = None\<rparr>"
  let ?p = "JS_object [(js ''command'', JS_string (js ''deploy'')),
                             (js ''tag'', JS_string (js ''v2''))] :: jsstring jsval"
  let ?q = "JS_object [(js ''command'', JS_string (js ''deploy'')),
                             (js ''tag'', JS_string (js ''v3''))] :: jsstring jsval"
  let ?d = "\<lparr>tag = JS_string (js ''v2''), name = js ''myapp'',
        image_ref = js ''registry.demo-docker.kurniadwin.to/myapp:v2'',
        awaiting = Deployed_msg\<rparr> :: jsstring deploy"
  let ?five = "[Completed 0 (Response 200 []),
       Completed 0 (Response 200 []),
       Completed 0 (Response 404 []),
       Completed 0 (Response 201 (js ''{\"Id\":\"abc\"}'')),
       Completed 0 (Response 304 [])] :: jsstring event list"
  let ?s = "run example_numbers ?cfg idle (Immediate ?p # ?five)"
  let ?r = "Response 200 []"
  let ?s1 = "run example_numbers ?cfg idle [Immediate ?p, Completed 0 (Response 200 [])]"
  let ?d1 = "\<lparr>tag = JS_string (js ''v2''), name = js ''myapp'',
        image_ref = js ''registry.demo-docker.kurniadwin.to/myapp:v2'',
        awaiting = Pull\<rparr> :: jsstring deploy"
  let ?r1 = "Response 500 (js ''no such image'')"
  have run6: "run example_numbers ?cfg idle (Immediate ?p # ?five @ [Completed 0 ?r]) =
      step example_numbers ?cfg ?s (Completed 0 ?r)"
    by (simp add: run_def)
  have run7: "run example_numbers ?cfg idle (Immediate ?p # ?five @ [Completed 0 ?r, Immediate ?q]) =
      step example_numbers ?cfg (step example_numbers ?cfg ?s (Completed 0 ?r)) (Immediate ?q)"
    by (simp add: run_def)
  have run2: "run example_numbers ?cfg idle [Immediate ?p, Completed 0 (Response 200 []), Completed 0 ?r1] =
      step example_numbers ?cfg ?s1 (Completed 0 ?r1)"
    by (simp add: run_def)
  have a: "map_of (running ?s) 0 = Some ?d"
    by (simp add: deploy_simps parse_simps)
  have on: "on_progres ?s"
    by (simp add: deploy_simps parse_simps)
  have last: "awaiting ?d = Deployed_msg \<and> returns example_numbers Deployed_msg ?r"
    by (simp add: returns_def returned_def send_telegram_msg_def)
  have g: "get ?q (js ''tag'') = Inr (JS_string (js ''v3''))"
    by (simp add: get_def lookup_def js_simps)
  have t: "to_string example_numbers (JS_string (js ''v3'')) = Inr (js ''v3'')"
    by simp
  note success = guard_released [OF a, where N = example_numbers and r = ?r and cfg = ?cfg]
  from success last have finished: "resume example_numbers ?cfg ?d ?r = Inr None"
    by blast
  with success have released:
    "\<not> on_progres (step example_numbers ?cfg ?s (Completed 0 ?r))"
    "0 \<notin> fst ` set (running (step example_numbers ?cfg ?s (Completed 0 ?r)))"
    and accepted: "\<forall>payload v t. get payload (js ''tag'') = Inr v \<and> to_string example_numbers v = Inr t \<longrightarrow>
      step example_numbers ?cfg (step example_numbers ?cfg ?s (Completed 0 ?r)) (Immediate payload) =
      (step example_numbers ?cfg ?s (Completed 0 ?r))
        \<lparr>on_progres := True,
         running := running (step example_numbers ?cfg ?s (Completed 0 ?r)) @
           [(next_id (step example_numbers ?cfg ?s (Completed 0 ?r)),
             \<lparr>tag = v, name = js ''myapp'',
              image_ref = js ''registry.demo-docker.kurniadwin.to/myapp:'' @ t,
              awaiting = Deploying_msg\<rparr>)],
         next_id := Suc (next_id (step example_numbers ?cfg ?s (Completed 0 ?r))),
         trace := trace (step example_numbers ?cfg ?s (Completed 0 ?r)) @
           [Console_log (js ''got telegram event: deploy: '' @ t),
            Call (Send_telegram_msg (js ''Deploying: '' @ t) None None)]\<rparr>"
    by blast+
  have none: "running (step example_numbers ?cfg ?s (Completed 0 ?r)) = []"
    by (simp add: deploy_simps parse_simps)
  have nid: "next_id (step example_numbers ?cfg ?s (Completed 0 ?r)) = 1"
    by (simp add: deploy_simps parse_simps)
  note eq = accepted [rule_format, OF conjI [OF g t]]
  have again: "map (\<lambda>(i, d). (i, tag d, awaiting d))
        (running (step example_numbers ?cfg (step example_numbers ?cfg ?s (Completed 0 ?r)) (Immediate ?q))) =
        [(1, JS_string (js ''v3''), Deploying_msg)]"
    "on_progres (step example_numbers ?cfg (step example_numbers ?cfg ?s (Completed 0 ?r)) (Immediate ?q))"
    by (simp_all add: eq none nid del: step.simps)
  have b: "map_of (running ?s1) 0 = Some ?d1"
    by (simp add: deploy_simps js_simps)
  have fails: "\<not> returns example_numbers (awaiting ?d1) ?r1"
    by (simp add: returns_def returned_def pull_image_def)
  note failure = guard_released [OF b, where N = example_numbers and r = ?r1 and cfg = ?cfg]
  from failure fails have "\<exists>e. resume example_numbers ?cfg ?d1 ?r1 = Inl e"
    by blast
  with failure have failed: "\<not> on_progres (step example_numbers ?cfg ?s1 (Completed 0 ?r1))"
    by blast
  from a on last released again fails failed show ?thesis
    using run6 run7 run2 by simp
qed

section \<open>The order of the redeploy sequence\<close>

lemma calls_append: "calls (xs @ ys) = calls xs @ calls ys"
  by (induction xs rule: calls.induct) simp_all

lemma run_gone:
  "map_of (running s) i = None \<Longrightarrow> run N cfg s (map (Completed i) rs) = s"
  by (induction rs) (simp_all add: run_def completed_def)

lemma resume_returns:
  assumes "returns N (awaiting d) r" and "to_string N (tag d) = Inr t"
    and "name d = js ''myapp''"
    and "image_ref d = js ''registry.demo-docker.kurniadwin.to/myapp:'' @ t"
  shows "resume N cfg d r =
     (if awaiting d = Deployed_msg then Inr None
      else Inr (Some (spec_sequence cfg t ! Suc (stage_index (awaiting d)),
                      stages ! Suc (stage_index (awaiting d)))))"
  using assms
  by (cases "awaiting d")
    (auto simp add: returns_def resume_def and_then_def spec_sequence_def stages_def dest: returned_cases)

lemma progress_Nil: "progress N sts [] = 0"
  by (cases sts) simp_all

lemma drop_stage_index: "drop (stage_index st) stages = st # drop (Suc (stage_index st)) stages"
  by (cases st) (simp_all add: stages_def)

lemma next_stage_index:
  "st \<noteq> Deployed_msg \<Longrightarrow> stage_index (stages ! Suc (stage_index st)) = Suc (stage_index st)"
  by (cases st) (simp_all add: stages_def)

lemma next_call:
  "st \<noteq> Deployed_msg \<Longrightarrow>
     drop (Suc (stage_index st)) (spec_sequence cfg t) =
       spec_sequence cfg t ! Suc (stage_index st) # drop (Suc (Suc (stage_index st))) (spec_sequence cfg t)"
  by (cases st) (simp_all add: spec_sequence_def)

lemma last_stage:
  "drop (Suc (stage_index Deployed_msg)) (spec_sequence cfg t) = []"
  by (simp add: spec_sequence_def)

lemma run_from_stage:
  assumes "map_of (running s) i = Some d" and "to_string N (tag d) = Inr t"
    and "name d = js ''myapp''"
    and "image_ref d = js ''registry.demo-docker.kurniadwin.to/myapp:'' @ t"
  shows "calls (trace (run N cfg s (map (Completed i) rs))) =
     calls (trace s) @
     take (progress N (drop (stage_index (awaiting d)) stages) rs)
       (drop (Suc (stage_index (awaiting d))) (spec_sequence cfg t))"
  using assms
proof (induction rs arbitrary: s d)
  case Nil
  then show ?case by (simp add: run_def progress_Nil)
next
  case (Cons r rs)
  let ?s' = "step N cfg s (Completed i r)"
  have run: "run N cfg s (map (Completed i) (r # rs)) = run N cfg ?s' (map (Completed i) rs)"
    by (simp add: run_Cons)
  show ?case
  proof (cases "returns N (awaiting d) r")
    case False
    then obtain e where e: "resume N cfg d r = Inl e"
      using resume_throws by blast
    have gone: "map_of (running ?s') i = None"
      using Cons.prems(1) e by (simp add: completed_def map_of_filter_out)
    have tr: "calls (trace ?s') = calls (trace s)"
      using Cons.prems(1) e by (simp add: completed_def calls_append)
    show ?thesis
      unfolding run run_gone [OF gone] tr
      using False by (subst drop_stage_index) simp
  next
    case True
    note res = resume_returns [OF True Cons.prems(2,3,4), of cfg]
    show ?thesis
    proof (cases "awaiting d = Deployed_msg")
      case last: True
      have gone: "map_of (running ?s') i = None"
        using Cons.prems(1) res last by (simp add: completed_def map_of_filter_out)
      have tr: "calls (trace ?s') = calls (trace s)"
        using Cons.prems(1) res last by (simp add: completed_def)
      show ?thesis
        unfolding run run_gone [OF gone] tr
        using last last_stage [of cfg t] by auto
    next
      case more: False
      let ?d' = "d\<lparr>awaiting := stages ! Suc (stage_index (awaiting d))\<rparr>"
      have here: "map_of (running ?s') i = Some ?d'"
        using Cons.prems(1) res more by (simp add: completed_def map_of_map_awaiting)
      have tr: "calls (trace ?s') =
          calls (trace s) @ [spec_sequence cfg t ! Suc (stage_index (awaiting d))]"
        using Cons.prems(1) res more by (simp add: completed_def calls_append)
      have ih: "calls (trace (run N cfg ?s' (map (Completed i) rs))) =
          calls (trace ?s') @
          take (progress N (drop (stage_index (awaiting ?d')) stages) rs)
            (drop (Suc (stage_index (awaiting ?d'))) (spec_sequence cfg t))"
        using Cons.IH [OF here] Cons.prems(2,3,4) by simp
      have prog: "progress N (drop (stage_index (awaiting d)) stages) (r # rs) =
          Suc (progress N (drop (Suc (stage_index (awaiting d))) stages) rs)"
        using True by (subst drop_stage_index) simp
      show ?thesis
        unfolding run ih tr prog
        using more by (simp add: next_stage_index next_call [of "awaiting d" cfg t])
    qed
  qed
qed

text \<open>In every state the bot reaches, the numbers of the running deploys are below
  \<open>next_id\<close>.\<close>

lemma ids_below_next_step:
  assumes "\<forall>j \<in> fst ` set (running s). j < next_id s"
  shows "\<forall>j \<in> fst ` set (running (step N cfg s ev)). j < next_id (step N cfg s ev)"
proof (cases ev)
  case (Immediate payload)
  then show ?thesis
    using assms by (auto simp add: immediate_def split: sum.splits)
next
  case (Completed i r)
  then show ?thesis
    using assms by (force simp add: completed_def split: option.splits sum.splits)
qed

lemma ids_below_next_run:
  "\<forall>j \<in> fst ` set (running s). j < next_id s \<Longrightarrow>
     \<forall>j \<in> fst ` set (running (run N cfg s evs)). j < next_id (run N cfg s evs)"
proof (induction evs arbitrary: s)
  case Nil
  then show ?case by (simp add: run_def)
next
  case (Cons ev evs)
  then show ?case
    unfolding run_Cons using ids_below_next_step by blast
qed

lemma ids_below_next_reachable:
  "\<forall>j \<in> fst ` set (running (run N cfg idle evs)). j < next_id (run N cfg idle evs)"
  by (rule ids_below_next_run) (simp add: idle_def)

lemma map_of_append_fresh:
  "k \<notin> fst ` set xs \<Longrightarrow> map_of (xs @ [(k, v)]) k = Some v"
  by (induction xs) auto

text \<open>
  C3. From an accepted request on, the calls of a deploy are a prefix of the six calls of
  the sequence, in that order: the first is made at once, each further one when the
  operation awaited before it returns, and none after an operation throws. Status 404
  counts as a return of the removal and status 304 as a return of the start.
\<close>

theorem sequence_order:
  assumes "\<not> on_progres s" and "\<forall>j \<in> fst ` set (running s). j < next_id s"
    and "get payload (js ''tag'') = Inr v" and "to_string N v = Inr t"
  shows "calls (trace (run N cfg s (Immediate payload # map (Completed (next_id s)) rs))) =
       calls (trace s) @ take (Suc (progress N stages rs)) (spec_sequence cfg t) \<and>
     returns N Remove (Response 404 body) \<and> returns N Start (Response 304 body)"
proof -
  let ?d = "\<lparr>tag = v, name = js ''myapp'',
     image_ref = js ''registry.demo-docker.kurniadwin.to/myapp:'' @ t, awaiting = Deploying_msg\<rparr>"
  let ?s1 = "step N cfg s (Immediate payload)"
  have fresh: "next_id s \<notin> fst ` set (running s)"
    using assms(2) by auto
  have s1: "?s1 = s\<lparr>on_progres := True, running := running s @ [(next_id s, ?d)],
      next_id := Suc (next_id s),
      trace := trace s @ [Console_log (js ''got telegram event: deploy: '' @ t),
                          Call (Send_telegram_msg (js ''Deploying: '' @ t) None None)]\<rparr>"
    using assms(1,3,4) by (simp add: immediate_def and_then_def)
  have here: "map_of (running ?s1) (next_id s) = Some ?d"
    unfolding s1 using map_of_append_fresh [OF fresh, of ?d] by simp
  have "calls (trace (run N cfg ?s1 (map (Completed (next_id s)) rs))) =
      calls (trace ?s1) @ take (progress N (drop (stage_index (awaiting ?d)) stages) rs)
        (drop (Suc (stage_index (awaiting ?d))) (spec_sequence cfg t))"
    by (rule run_from_stage [OF here]) (simp_all add: assms(4))
  moreover have "calls (trace ?s1) = calls (trace s) @ [Send_telegram_msg (js ''Deploying: '' @ t) None None]"
    unfolding s1 by (simp add: calls_append)
  ultimately show ?thesis
    by (simp add: run_Cons spec_sequence_def returns_def returned_def remove_container_def
        start_container_def)
qed

theorem sequence_order_witness:
  "\<not> on_progres (idle :: jsstring bot) \<and>
   calls (trace (run example_numbers \<lparr>REGISTRY_USER = Some (js ''me''), REGISTRY_PASS = Some (js ''pw'')\<rparr> idle
     (Immediate (JS_object [(js ''command'', JS_string (js ''deploy'')),
                            (js ''tag'', JS_string (js ''v2''))]) #
      map (Completed (next_id (idle :: jsstring bot)))
        [Response 200 [], Response 200 [], Response 404 [], Response 500 [], Response 204 []]))) =
     [Send_telegram_msg (js ''Deploying: v2'') None None,
      Pull_image (js ''registry.demo-docker.kurniadwin.to/myapp:v2'') (Some (js ''me'')) (Some (js ''pw'')),
      Remove_container (js ''myapp''),
      Create_container (js ''myapp'') (js ''registry.demo-docker.kurniadwin.to/myapp:v2'') (js ''net0'')]"
proof -
  let ?p = "JS_object [(js ''command'', JS_string (js ''deploy'')),
                             (js ''tag'', JS_string (js ''v2''))] :: jsstring jsval"
  have a: "\<not> on_progres (idle :: jsstring bot)"
    by (simp add: idle_def)
  have b: "\<forall>j \<in> fst ` set (running (idle :: jsstring bot)). j < next_id (idle :: jsstring bot)"
    by (simp add: idle_def)
  have g: "get ?p (js ''tag'') = Inr (JS_string (js ''v2''))"
    by (simp add: get_def lookup_def js_simps)
  have t: "to_string example_numbers (JS_string (js ''v2'')) = Inr (js ''v2'')"
    by simp
  have p: "progress example_numbers stages
      [Response 200 [], Response 200 [], Response 404 [], Response 500 [], Response 204 []] = 3"
    by (simp add: stages_def returns_def returned_def send_telegram_msg_def pull_image_def
        remove_container_def create_container_def)
  have c: "calls (trace (idle :: jsstring bot)) = []"
    by (simp add: idle_def)
  from sequence_order [OF a b g t, THEN conjunct1,
      of "\<lparr>REGISTRY_USER = Some (js ''me''), REGISTRY_PASS = Some (js ''pw'')\<rparr>"
      "[Response 200 [], Response 200 [], Response 404 [], Response 500 [], Response 204 []]"]
  show ?thesis
    unfolding p c using a by (simp add: spec_sequence_def js_simps)
qed

text \<open>
  The same for a whole sequence: from an accepted request on, once an outcome makes an
  operation throw or all six outcomes have made their operations return, the guard is
  clear, whatever outcomes are delivered after that.
\<close>

lemma stage_index_le: "stage_index st \<le> 5"
  by (cases st) simp_all

lemma ends_from_stage:
  assumes "map_of (running s) i = Some d" and "to_string N (tag d) = Inr t"
    and "name d = js ''myapp''"
    and "image_ref d = js ''registry.demo-docker.kurniadwin.to/myapp:'' @ t"
    and "progress N (drop (stage_index (awaiting d)) stages) rs < length rs \<or>
         stage_index (awaiting d) + progress N (drop (stage_index (awaiting d)) stages) rs = 6"
  shows "\<not> on_progres (run N cfg s (map (Completed i) rs)) \<and>
     map_of (running (run N cfg s (map (Completed i) rs))) i = None"
  using assms
proof (induction rs arbitrary: s d)
  case Nil
  then show ?case
    using stage_index_le [of "awaiting d"] by (simp add: progress_Nil)
next
  case (Cons r rs)
  let ?s' = "step N cfg s (Completed i r)"
  have run: "run N cfg s (map (Completed i) (r # rs)) = run N cfg ?s' (map (Completed i) rs)"
    by (simp add: run_Cons)
  show ?case
  proof (cases "returns N (awaiting d) r")
    case False
    then obtain e where e: "resume N cfg d r = Inl e"
      using resume_throws by blast
    have gone: "map_of (running ?s') i = None"
      using Cons.prems(1) e by (simp add: completed_def map_of_filter_out)
    have off: "\<not> on_progres ?s'"
      using Cons.prems(1) e by (simp add: completed_def)
    show ?thesis
      unfolding run run_gone [OF gone] using gone off by simp
  next
    case True
    note res = resume_returns [OF True Cons.prems(2,3,4), of cfg]
    show ?thesis
    proof (cases "awaiting d = Deployed_msg")
      case last: True
      have gone: "map_of (running ?s') i = None"
        using Cons.prems(1) res last by (simp add: completed_def map_of_filter_out)
      have off: "\<not> on_progres ?s'"
        using Cons.prems(1) res last by (simp add: completed_def)
      show ?thesis
        unfolding run run_gone [OF gone] using gone off by simp
    next
      case more: False
      let ?d' = "d\<lparr>awaiting := stages ! Suc (stage_index (awaiting d))\<rparr>"
      have here: "map_of (running ?s') i = Some ?d'"
        using Cons.prems(1) res more by (simp add: completed_def map_of_map_awaiting)
      have prog: "progress N (drop (stage_index (awaiting d)) stages) (r # rs) =
          Suc (progress N (drop (Suc (stage_index (awaiting d))) stages) rs)"
        using True by (subst drop_stage_index) simp
      have rest: "progress N (drop (stage_index (awaiting ?d')) stages) rs < length rs \<or>
          stage_index (awaiting ?d') + progress N (drop (stage_index (awaiting ?d')) stages) rs = 6"
        using Cons.prems(5) more unfolding prog by (auto simp add: next_stage_index)
      show ?thesis
        unfolding run
        using Cons.IH [OF here _ _ _ rest] Cons.prems(2,3,4) by simp
    qed
  qed
qed

lemma released_after_sequence:
  assumes "\<not> on_progres s" and "\<forall>j \<in> fst ` set (running s). j < next_id s"
    and "get payload (js ''tag'') = Inr v" and "to_string N v = Inr t"
    and "progress N stages rs < length rs \<or> progress N stages rs = 6"
  shows "on_progres (step N cfg s (Immediate payload)) \<and>
     \<not> on_progres (run N cfg s (Immediate payload # map (Completed (next_id s)) rs))"
proof -
  let ?d = "\<lparr>tag = v, name = js ''myapp'',
     image_ref = js ''registry.demo-docker.kurniadwin.to/myapp:'' @ t, awaiting = Deploying_msg\<rparr>"
  let ?s1 = "step N cfg s (Immediate payload)"
  have fresh: "next_id s \<notin> fst ` set (running s)"
    using assms(2) by auto
  have s1: "?s1 = s\<lparr>on_progres := True, running := running s @ [(next_id s, ?d)],
      next_id := Suc (next_id s),
      trace := trace s @ [Console_log (js ''got telegram event: deploy: '' @ t),
                          Call (Send_telegram_msg (js ''Deploying: '' @ t) None None)]\<rparr>"
    using assms(1,3,4) by (simp add: immediate_def and_then_def)
  have here: "map_of (running ?s1) (next_id s) = Some ?d"
    unfolding s1 using map_of_append_fresh [OF fresh, of ?d] by simp
  have "\<not> on_progres (run N cfg ?s1 (map (Completed (next_id s)) rs))"
    using ends_from_stage [OF here, of N t rs cfg] assms(4,5) by (simp add: stages_def)
  moreover have "on_progres ?s1"
    unfolding s1 by simp
  ultimately show ?thesis
    by (simp add: run_Cons)
qed

section \<open>The tag of a deploy\<close>

lemma do_deploy_payload:
  assumes "do_deploy N x = Inr (Some payload)"
  shows "\<exists>c. get payload (js ''command'') = Inr c \<and> loose_equals N c (js ''deploy'') = Inr True"
  using assms
  by (auto simp add: do_deploy_def Let_def and_then_def split: sum.splits if_splits)

lemma get_any: "get v k = Inr x \<Longrightarrow> \<exists>y. get v k' = Inr y"
  by (cases v) (simp_all add: get_def)

text \<open>
  C10, as amended. A decoded payload whose command is deploy always has a tag value,
  which is \<^verbatim>\<open>undefined\<close> when the payload has no tag member. Nothing validates it: when the
  guard is clear and the value has a string rendering \<open>t\<close>, the sequence starts with that
  value as the tag, whatever its type, and the image that is pulled and from which the
  container is created is the template followed by \<open>t\<close>.
\<close>

theorem deploy_without_tag_validation:
  assumes "do_deploy N x = Inr (Some payload)"
  shows "\<exists>v. get payload (js ''tag'') = Inr v \<and>
     (\<forall>kvs. payload = JS_object kvs \<and> lookup kvs (js ''tag'') = None \<longrightarrow>
        v = JS_undefined \<and> to_string N v = Inr (js ''undefined'')) \<and>
     (\<forall>s t d. \<not> on_progres s \<and> to_string N v = Inr t \<and>
        d = \<lparr>tag = v, name = js ''myapp'',
             image_ref = js ''registry.demo-docker.kurniadwin.to/myapp:'' @ t,
             awaiting = Deploying_msg\<rparr> \<longrightarrow>
        immediate N payload s =
          s\<lparr>on_progres := True, running := running s @ [(next_id s, d)],
            next_id := Suc (next_id s),
            trace := trace s @
              [Console_log (js ''got telegram event: deploy: '' @ t),
               Call (Send_telegram_msg (js ''Deploying: '' @ t) None None)]\<rparr> \<and>
        (\<forall>r. returns N Deploying_msg r \<longrightarrow>
           resume N cfg d r =
             Inr (Some (Pull_image (js ''registry.demo-docker.kurniadwin.to/myapp:'' @ t)
                          (REGISTRY_USER cfg) (REGISTRY_PASS cfg), Pull))) \<and>
        (\<forall>r. returns N Remove r \<longrightarrow>
           resume N cfg (d\<lparr>awaiting := Remove\<rparr>) r =
             Inr (Some (Create_container (js ''myapp'')
                          (js ''registry.demo-docker.kurniadwin.to/myapp:'' @ t) (js ''net0''),
                        Create))))"
proof -
  obtain v where v: "get payload (js ''tag'') = Inr v"
    using do_deploy_payload [OF assms] get_any by blast
  have absent: "\<forall>kvs. payload = JS_object kvs \<and> lookup kvs (js ''tag'') = None \<longrightarrow>
      v = JS_undefined \<and> to_string N v = Inr (js ''undefined'')"
    using v by (auto simp add: get_def)
  have start: "\<forall>s t d. \<not> on_progres s \<and> to_string N v = Inr t \<and>
        d = \<lparr>tag = v, name = js ''myapp'',
             image_ref = js ''registry.demo-docker.kurniadwin.to/myapp:'' @ t,
             awaiting = Deploying_msg\<rparr> \<longrightarrow>
        immediate N payload s =
          s\<lparr>on_progres := True, running := running s @ [(next_id s, d)],
            next_id := Suc (next_id s),
            trace := trace s @
              [Console_log (js ''got telegram event: deploy: '' @ t),
               Call (Send_telegram_msg (js ''Deploying: '' @ t) None None)]\<rparr> \<and>
        (\<forall>r. returns N Deploying_msg r \<longrightarrow>
           resume N cfg d r =
             Inr (Some (Pull_image (js ''registry.demo-docker.kurniadwin.to/myapp:'' @ t)
                          (REGISTRY_USER cfg) (REGISTRY_PASS cfg), Pull))) \<and>
        (\<forall>r. returns N Remove r \<longrightarrow>
           resume N cfg (d\<lparr>awaiting := Remove\<rparr>) r =
             Inr (Some (Create_container (js ''myapp'')
                          (js ''registry.demo-docker.kurniadwin.to/myapp:'' @ t) (js ''net0''),
                        Create)))"
    using v
    by (auto simp add: immediate_def resume_def and_then_def returns_def
        dest!: returned_cases)
  from v absent start show ?thesis
    by blast
qed

text \<open>
  C10 as stated fails for a tag that is present and not a string: the tag used is that
  value, here \<^verbatim>\<open>null\<close>, and not \<^verbatim>\<open>undefined\<close>.
\<close>

theorem tag_is_undefined_counterexample:
  "do_deploy example_numbers (JS_string (js ''{\"command\":\"deploy\",\"tag\":null}'')) =
     Inr (Some (JS_object [(js ''command'', JS_string (js ''deploy'')), (js ''tag'', JS_null)])) \<and>
   map (\<lambda>(i, d). (tag d, image_ref d))
     (running (immediate example_numbers
        (JS_object [(js ''command'', JS_string (js ''deploy'')), (js ''tag'', JS_null)]) idle)) =
     [(JS_null, js ''registry.demo-docker.kurniadwin.to/myapp:null'')] \<and>
   JS_null \<noteq> (JS_undefined :: jsstring jsval)"
  by (simp add: do_deploy_def parse_simps and_then_def get_def lookup_def loose_equals_def
      immediate_def idle_def)

theorem deploy_without_tag_validation_witness:
  "do_deploy example_numbers (JS_string (js ''{\"command\":\"deploy\"}'')) =
     Inr (Some (JS_object [(js ''command'', JS_string (js ''deploy''))])) \<and>
   get (JS_object [(js ''command'', JS_string (js ''deploy''))] :: jsstring jsval) (js ''tag'') =
     Inr JS_undefined \<and>
   map (\<lambda>(i, d). (tag d, image_ref d))
     (running (immediate example_numbers
        (JS_object [(js ''command'', JS_string (js ''deploy''))]) idle)) =
     [(JS_undefined, js ''registry.demo-docker.kurniadwin.to/myapp:undefined'')]"
proof -
  let ?p = "JS_object [(js ''command'', JS_string (js ''deploy''))] :: jsstring jsval"
  have a: "do_deploy example_numbers (JS_string (js ''{\"command\":\"deploy\"}'')) = Inr (Some ?p)"
    by (simp add: do_deploy_def parse_simps and_then_def get_def lookup_def loose_equals_def)
  have g: "get ?p (js ''tag'') = Inr JS_undefined"
    by (simp add: get_def lookup_def js_simps)
  have i: "\<not> on_progres (idle :: jsstring bot)"
    by (simp add: idle_def)
  from deploy_without_tag_validation [OF a, of "\<lparr>REGISTRY_USER = None, REGISTRY_PASS = None\<rparr>"] g
  have "\<forall>s t d. \<not> on_progres s \<and> to_string example_numbers JS_undefined = Inr t \<and>
        d = \<lparr>tag = JS_undefined, name = js ''myapp'',
             image_ref = js ''registry.demo-docker.kurniadwin.to/myapp:'' @ t,
             awaiting = Deploying_msg\<rparr> \<longrightarrow>
        immediate example_numbers ?p s =
          s\<lparr>on_progres := True, running := running s @ [(next_id s, d)],
            next_id := Suc (next_id s),
            trace := trace s @
              [Console_log (js ''got telegram event: deploy: '' @ t),
               Call (Send_telegram_msg (js ''Deploying: '' @ t) None None)]\<rparr>"
    by auto
  from this [rule_format, of idle "js ''undefined''"] i
  have "running (immediate example_numbers ?p idle) =
      running (idle :: jsstring bot) @
        [(next_id (idle :: jsstring bot),
          \<lparr>tag = JS_undefined, name = js ''myapp'',
           image_ref = js ''registry.demo-docker.kurniadwin.to/myapp:'' @ js ''undefined'',
           awaiting = Deploying_msg\<rparr>)]"
    by simp
  then show ?thesis
    using a g by (simp add: idle_def js_simps)
qed

section \<open>The round trip of the deploy command\<close>



lemma of_nat_unat_unit: "of_nat (unat c) = (c :: code_unit)"
  by simp











end
